theory Spec2Isabelle
  imports Main "HOL-Library.Word"
begin

unbundle bit_operations_syntax

section \<open>The ring buffer (src/libcork/ds/ring-buffer.c)\<close>

text \<open>
  A \<^verbatim>\<open>void *\<close> is an address; \<^verbatim>\<open>NULL\<close> is address 0.  A \<^verbatim>\<open>size_t\<close> is an
  unsigned 64-bit number: it is kept as a natural number and every increment and decrement
  of the source is reduced modulo \<open>2 ^ 64\<close>.
\<close>

type_synonym ptr = nat

definition NULL :: ptr where
  "NULL = 0"

definition size_t :: "nat \<Rightarrow> nat" where
  "size_t n = n mod 2 ^ 64"

text \<open>
  \<^verbatim>\<open>struct cork_ring_buffer\<close>.  Its member \<^verbatim>\<open>elements\<close> is a pointer to an array, which
  two fields hold: \<open>elements_ptr\<close> is the pointer itself, \<^verbatim>\<open>NULL\<close> after a failed
  allocation, and \<open>elements\<close> is the array behind it, indexed from 0 (it carries no
  length of its own, as in C, and says nothing while the pointer is \<^verbatim>\<open>NULL\<close>).
\<close>

record cork_ring_buffer =
  elements_ptr :: ptr
  elements :: "nat \<Rightarrow> ptr"
  allocated_size :: nat
  size_rb :: nat
  read_index :: nat
  write_index :: nat

text \<open>
  Modelled from the spec: the header libcork/ds/ring-buffer.h, which declares the struct
  and the macros \<^verbatim>\<open>cork_ring_buffer_is_empty\<close> and \<^verbatim>\<open>cork_ring_buffer_is_full\<close>, is not
  among the sources.  The buffer is a fixed-capacity circular buffer of opaque pointers:
  it is empty when it holds no element and full when its element count equals its
  allocated capacity.
\<close>

definition cork_ring_buffer_is_empty :: "cork_ring_buffer \<Rightarrow> bool" where
  "cork_ring_buffer_is_empty self \<longleftrightarrow> size_rb self = 0"

definition cork_ring_buffer_is_full :: "cork_ring_buffer \<Rightarrow> bool" where
  "cork_ring_buffer_is_full self \<longleftrightarrow> size_rb self = allocated_size self"

text \<open>
  \<^verbatim>\<open>cork_ring_buffer_init\<close>: \<open>mem\<close> is what \<^verbatim>\<open>calloc\<close> returned, \<^verbatim>\<open>NULL\<close> when it failed
  and otherwise the address of a zero-filled array, every slot of which is \<^verbatim>\<open>NULL\<close>.
  The result of \<^verbatim>\<open>calloc\<close> is stored in the buffer before it is tested, so a failed
  call leaves the buffer with the pointer \<^verbatim>\<open>NULL\<close> and its other members as they were.
\<close>

definition cork_ring_buffer_init ::
  "ptr \<Rightarrow> cork_ring_buffer \<Rightarrow> nat \<Rightarrow> int \<times> cork_ring_buffer" where
  "cork_ring_buffer_init mem self sz =
     (let self1 = self\<lparr>elements_ptr := mem\<rparr>
      in if elements_ptr self1 = NULL then (- 1, self1)
         else (0, self1\<lparr>elements := (\<lambda>_. NULL), allocated_size := sz, size_rb := 0,
                         read_index := 0, write_index := 0\<rparr>))"

definition cork_ring_buffer_add :: "cork_ring_buffer \<Rightarrow> ptr \<Rightarrow> int \<times> cork_ring_buffer" where
  "cork_ring_buffer_add self element =
     (if cork_ring_buffer_is_full self then (- 1, self)
      else
        let self1 = self\<lparr>elements := (elements self)(write_index self := element),
                         write_index := size_t (write_index self + 1)\<rparr>;
            self2 = self1\<lparr>size_rb := size_t (size_rb self1 + 1)\<rparr>;
            self3 = (if write_index self2 = allocated_size self2
                     then self2\<lparr>write_index := 0\<rparr> else self2)
        in (0, self3))"

definition cork_ring_buffer_pop :: "cork_ring_buffer \<Rightarrow> ptr \<times> cork_ring_buffer" where
  "cork_ring_buffer_pop self =
     (if cork_ring_buffer_is_empty self then (NULL, self)
      else
        let result = elements self (read_index self);
            self1 = self\<lparr>read_index := size_t (read_index self + 1)\<rparr>;
            self2 = self1\<lparr>size_rb := size_t (size_rb self1 + 2 ^ 64 - 1)\<rparr>;
            self3 = (if read_index self2 = allocated_size self2
                     then self2\<lparr>read_index := 0\<rparr> else self2)
        in (result, self3))"

definition cork_ring_buffer_peek :: "cork_ring_buffer \<Rightarrow> ptr" where
  "cork_ring_buffer_peek self =
     (if cork_ring_buffer_is_empty self then NULL else elements self (read_index self))"

subsection \<open>Sequences of calls, and the queue they are compared with\<close>

datatype rb_call = Add ptr | Pop

text \<open>
  \<open>rb_run\<close> makes the calls one after the other on the buffer of the source and collects
  what each \<^verbatim>\<open>cork_ring_buffer_pop\<close> returned.
\<close>

fun rb_run :: "cork_ring_buffer \<Rightarrow> rb_call list \<Rightarrow> ptr list" where
  "rb_run self [] = []"
| "rb_run self (Add x # cs) = rb_run (snd (cork_ring_buffer_add self x)) cs"
| "rb_run self (Pop # cs) =
     fst (cork_ring_buffer_pop self) # rb_run (snd (cork_ring_buffer_pop self)) cs"

text \<open>
  The first-in-first-out queue the buffer is compared with, a list with the oldest element
  first: a
  pop of a non-empty queue returns the oldest element not yet popped, a pop of the empty
  queue returns \<^verbatim>\<open>NULL\<close> and leaves it empty.
\<close>

fun fifo_run :: "ptr list \<Rightarrow> rb_call list \<Rightarrow> ptr list" where
  "fifo_run q [] = []"
| "fifo_run q (Add x # cs) = fifo_run (q @ [x]) cs"
| "fifo_run [] (Pop # cs) = NULL # fifo_run [] cs"
| "fifo_run (y # q) (Pop # cs) = y # fifo_run q cs"

text \<open>
  \<open>adds_fit cap n cs\<close>: starting from \<open>n\<close> stored elements in a buffer of capacity
  \<open>cap\<close>, no \<open>Add\<close> of \<open>cs\<close> is attempted on a full buffer.
\<close>

fun adds_fit :: "nat \<Rightarrow> nat \<Rightarrow> rb_call list \<Rightarrow> bool" where
  "adds_fit cap n [] = True"
| "adds_fit cap n (Add x # cs) = (n \<noteq> cap \<and> adds_fit cap (Suc n) cs)"
| "adds_fit cap n (Pop # cs) = adds_fit cap (n - 1) cs"

text \<open>
  The stored elements, oldest first, and the well-formedness of a buffer: what
  \<^verbatim>\<open>cork_ring_buffer_init\<close> establishes and every call keeps.
\<close>

definition rb_contents :: "cork_ring_buffer \<Rightarrow> ptr list" where
  "rb_contents self =
     map (\<lambda>i. elements self ((read_index self + i) mod allocated_size self))
       [0 ..< size_rb self]"

definition rb_wf :: "cork_ring_buffer \<Rightarrow> bool" where
  "rb_wf self \<longleftrightarrow>
     allocated_size self < 2 ^ 64 \<and> size_rb self \<le> allocated_size self \<and>
     (if allocated_size self = 0 then read_index self = 0 \<and> write_index self = 0
      else read_index self < allocated_size self \<and>
           write_index self = (read_index self + size_rb self) mod allocated_size self)"

definition rb_demo_full :: cork_ring_buffer where
  "rb_demo_full =
     \<lparr>elements_ptr = 4096, elements = (\<lambda>_. NULL)(0 := 11, 1 := 12), allocated_size = 2,
      size_rb = 2,
      read_index = 0, write_index = 0\<rparr>"

definition rb_demo_empty :: cork_ring_buffer where
  "rb_demo_empty =
     \<lparr>elements_ptr = 4096, elements = (\<lambda>_. NULL), allocated_size = 2, size_rb = 0,
      read_index = 0, write_index = 0\<rparr>"

section \<open>The process state\<close>

text \<open>
  The functions of src/libcork/posix/files.c work on \<^verbatim>\<open>struct cork_path\<close> and
  \<^verbatim>\<open>struct cork_file\<close> objects through pointers, read and write \<^verbatim>\<open>errno\<close>, record
  failures in libcork's current-error slot and call the operating system.  The state
  below holds all of it: two stores (addresses to objects) with the address the allocator
  hands out next, \<^verbatim>\<open>errno\<close>, the error slot, and the file system \<open>world\<close>, which only the
  operating system reads and writes.  The allocator never hands out an address twice, so
  releasing an object leaves the stores as they are; running out of memory aborts the
  process in libcork and is outside the model.
\<close>

type_synonym addr = nat

text \<open>
  Modelled from the spec: libcork/core/error.h and libcork/os/files.h are not among the
  sources.  A SystemError wraps an OS-level failure code; the classification of an entry
  is one of Missing, Regular, Directory, Symlink, Unknown; the policy flags are Recursive
  and Permissive, one bit each of an \<^verbatim>\<open>unsigned int\<close>.
\<close>

datatype error = SystemError int

datatype cork_file_type =
  CORK_FILE_MISSING | CORK_FILE_REGULAR | CORK_FILE_DIRECTORY | CORK_FILE_SYMLINK
  | CORK_FILE_UNKNOWN

type_synonym flags_t = "32 word"

definition CORK_FILE_RECURSIVE :: flags_t where
  "CORK_FILE_RECURSIVE = 1"

definition CORK_FILE_PERMISSIVE :: flags_t where
  "CORK_FILE_PERMISSIVE = 2"

text \<open>
  \<^verbatim>\<open>mode_t\<close> and the constants of \<^verbatim>\<open><sys/stat.h>\<close> and \<^verbatim>\<open><errno.h>\<close>, with the
  values Linux gives them.
\<close>

type_synonym mode_t = "32 word"

definition S_IFMT :: mode_t where "S_IFMT = 61440"

definition S_IFREG :: mode_t where "S_IFREG = 32768"

definition S_IFDIR :: mode_t where "S_IFDIR = 16384"

definition S_IFLNK :: mode_t where "S_IFLNK = 40960"

definition S_ISREG :: "mode_t \<Rightarrow> bool" where
  "S_ISREG m \<longleftrightarrow> m AND S_IFMT = S_IFREG"

definition S_ISDIR :: "mode_t \<Rightarrow> bool" where
  "S_ISDIR m \<longleftrightarrow> m AND S_IFMT = S_IFDIR"

definition S_ISLNK :: "mode_t \<Rightarrow> bool" where
  "S_ISLNK m \<longleftrightarrow> m AND S_IFMT = S_IFLNK"

definition ENOENT :: int where "ENOENT = 2"

definition EACCES :: int where "EACCES = 13"

definition EEXIST :: int where "EEXIST = 17"

definition ENOTDIR :: int where "ENOTDIR = 20"

definition EISDIR :: int where "EISDIR = 21"

definition ENOTEMPTY :: int where "ENOTEMPTY = 39"

text \<open>
  \<^verbatim>\<open>struct cork_path\<close> has one member, the buffer \<^verbatim>\<open>given\<close>; a path object is identified
  with the text its buffer holds (the characters before the terminating NUL, so the text
  holds no NUL itself).  \<^verbatim>\<open>struct cork_file\<close> is a record; of its \<^verbatim>\<open>struct stat\<close> only
  \<^verbatim>\<open>st_mode\<close> is ever read.
\<close>

type_synonym cork_buffer = string

record cork_file =
  file_path :: addr
  st_mode :: mode_t
  type :: cork_file_type
  has_stat :: bool

record 'w cstate =
  errno :: int
  cork_error :: "error option"
  path_mem :: "addr \<Rightarrow> cork_buffer"
  path_brk :: addr
  file_mem :: "addr \<Rightarrow> cork_file"
  file_brk :: addr
  world :: 'w

definition upd_path :: "addr \<Rightarrow> (cork_buffer \<Rightarrow> cork_buffer) \<Rightarrow> 'w cstate \<Rightarrow> 'w cstate" where
  "upd_path p f s = s\<lparr>path_mem := (path_mem s)(p := f (path_mem s p))\<rparr>"

definition upd_file :: "addr \<Rightarrow> (cork_file \<Rightarrow> cork_file) \<Rightarrow> 'w cstate \<Rightarrow> 'w cstate" where
  "upd_file a f s = s\<lparr>file_mem := (file_mem s)(a := f (file_mem s a))\<rparr>"

text \<open>
  Modelled from the spec: libcork/core/error.c is not among the sources.
  \<^verbatim>\<open>cork_system_error_set\<close> records a SystemError wrapping the current \<^verbatim>\<open>errno\<close>,
  \<^verbatim>\<open>cork_system_error_set_explicit\<close> one wrapping the code it is given.
\<close>

definition cork_system_error_set :: "'w cstate \<Rightarrow> 'w cstate" where
  "cork_system_error_set s = s\<lparr>cork_error := Some (SystemError (errno s))\<rparr>"

definition cork_system_error_set_explicit :: "int \<Rightarrow> 'w cstate \<Rightarrow> 'w cstate" where
  "cork_system_error_set_explicit code s = s\<lparr>cork_error := Some (SystemError code)\<rparr>"

section \<open>Paths\<close>

text \<open>
  Modelled from the spec: libcork/ds/buffer.c is not among the sources.  A path is a
  growable character buffer holding the path string, with its current logical length;
  the operations used by files.c set it, copy it, append to it, cut it to a length, empty
  it and read one of its characters.
\<close>

definition cork_buffer_set_string :: "cork_buffer \<Rightarrow> string \<Rightarrow> cork_buffer" where
  "cork_buffer_set_string buf str = str"

definition cork_buffer_copy :: "cork_buffer \<Rightarrow> cork_buffer \<Rightarrow> cork_buffer" where
  "cork_buffer_copy dest src = src"

definition cork_buffer_append :: "cork_buffer \<Rightarrow> string \<Rightarrow> nat \<Rightarrow> cork_buffer" where
  "cork_buffer_append buf src len = buf @ take len src"

definition cork_buffer_append_string :: "cork_buffer \<Rightarrow> string \<Rightarrow> cork_buffer" where
  "cork_buffer_append_string buf str = buf @ str"

definition cork_buffer_truncate :: "cork_buffer \<Rightarrow> nat \<Rightarrow> cork_buffer" where
  "cork_buffer_truncate buf len = (if len < length buf then take len buf else buf)"

definition cork_buffer_clear :: "cork_buffer \<Rightarrow> cork_buffer" where
  "cork_buffer_clear buf = []"

definition cork_buffer_char :: "cork_buffer \<Rightarrow> nat \<Rightarrow> char" where
  "cork_buffer_char buf i = buf ! i"

text \<open>
  \<^verbatim>\<open>strrchr\<close> of the C library: the offset of the last occurrence of the character, or
  \<^verbatim>\<open>NULL\<close> (\<open>None\<close>).
\<close>

fun strrchr :: "string \<Rightarrow> char \<Rightarrow> nat option" where
  "strrchr [] c = None"
| "strrchr (x # xs) c =
     (case strrchr xs c of
        Some i \<Rightarrow> Some (Suc i)
      | None \<Rightarrow> if x = c then Some 0 else None)"

definition cork_path_new_internal :: "'w cstate \<Rightarrow> addr \<times> 'w cstate" where
  "cork_path_new_internal s =
     (path_brk s, s\<lparr>path_mem := (path_mem s)(path_brk s := []), path_brk := Suc (path_brk s)\<rparr>)"

definition cork_path_new :: "string option \<Rightarrow> 'w cstate \<Rightarrow> addr \<times> 'w cstate" where
  "cork_path_new source s =
     (case cork_path_new_internal s of (path, s1) \<Rightarrow>
        (case source of
           None \<Rightarrow> (path, upd_path path (\<lambda>b. cork_buffer_set_string b []) s1)
         | Some str \<Rightarrow> (path, upd_path path (\<lambda>b. cork_buffer_set_string b str) s1)))"

definition cork_path_clone :: "addr \<Rightarrow> 'w cstate \<Rightarrow> addr \<times> 'w cstate" where
  "cork_path_clone other s =
     (case cork_path_new_internal s of (path, s1) \<Rightarrow>
        (path, upd_path path (\<lambda>b. cork_buffer_copy b (path_mem s1 other)) s1))"

definition cork_path_free :: "addr \<Rightarrow> 'w cstate \<Rightarrow> 'w cstate" where
  "cork_path_free path s = s"

definition cork_path_get :: "addr \<Rightarrow> 'w cstate \<Rightarrow> string" where
  "cork_path_get path s = path_mem s path"

definition cork_path_size :: "addr \<Rightarrow> 'w cstate \<Rightarrow> nat" where
  "cork_path_size path s = length (path_mem s path)"

definition cork_path_truncate :: "addr \<Rightarrow> nat \<Rightarrow> 'w cstate \<Rightarrow> 'w cstate" where
  "cork_path_truncate path len s = upd_path path (\<lambda>b. cork_buffer_truncate b len) s"

text \<open>
  \<^verbatim>\<open>cork_path_append\<close>: \<open>more_str\<close> (the parameter \<^verbatim>\<open>more\<close> of the source) is a C
  string or \<^verbatim>\<open>NULL\<close> (\<open>None\<close>).  \<^verbatim>\<open>cork_path_set_absolute\<close> and \<^verbatim>\<open>cork_path_absolute\<close>
  (lines 96-128) are not part of the model.
\<close>

definition cork_path_append :: "addr \<Rightarrow> string option \<Rightarrow> 'w cstate \<Rightarrow> 'w cstate" where
  "cork_path_append path more_str s =
     (case more_str of
        None \<Rightarrow> s
      | Some [] \<Rightarrow> s
      | Some (c # cs) \<Rightarrow>
          if c = CHR ''/'' then upd_path path (\<lambda>b. cork_buffer_set_string b (c # cs)) s
          else
            let s1 =
              (if cork_path_size path s > 0 \<and>
                  cork_buffer_char (path_mem s path) (cork_path_size path s - 1) \<noteq> CHR ''/''
               then upd_path path (\<lambda>b. cork_buffer_append b ''/'' 1) s
               else s)
            in upd_path path (\<lambda>b. cork_buffer_append_string b (c # cs)) s1)"

definition cork_path_join :: "addr \<Rightarrow> string option \<Rightarrow> 'w cstate \<Rightarrow> addr \<times> 'w cstate" where
  "cork_path_join other more_str s =
     (case cork_path_clone other s of (path, s1) \<Rightarrow> (path, cork_path_append path more_str s1))"

definition cork_path_append_path :: "addr \<Rightarrow> addr \<Rightarrow> 'w cstate \<Rightarrow> 'w cstate" where
  "cork_path_append_path path more_str s = cork_path_append path (Some (path_mem s more_str)) s"

definition cork_path_join_path :: "addr \<Rightarrow> addr \<Rightarrow> 'w cstate \<Rightarrow> addr \<times> 'w cstate" where
  "cork_path_join_path other more_str s =
     (case cork_path_clone other s of (path, s1) \<Rightarrow> (path, cork_path_append_path path more_str s1))"

definition cork_path_set_basename :: "addr \<Rightarrow> 'w cstate \<Rightarrow> 'w cstate" where
  "cork_path_set_basename path s =
     (let given = path_mem s path in
      case strrchr given CHR ''/'' of
        None \<Rightarrow> s
      | Some offset \<Rightarrow>
          let basename_length = cork_path_size path s - offset - 1
          in upd_path path (\<lambda>b. take basename_length (drop (offset + 1) given)) s)"

definition cork_path_basename :: "addr \<Rightarrow> 'w cstate \<Rightarrow> addr \<times> 'w cstate" where
  "cork_path_basename other s =
     (case cork_path_clone other s of (path, s1) \<Rightarrow> (path, cork_path_set_basename path s1))"

definition cork_path_set_dirname :: "addr \<Rightarrow> 'w cstate \<Rightarrow> 'w cstate" where
  "cork_path_set_dirname path s =
     (let given = path_mem s path in
      case strrchr given CHR ''/'' of
        None \<Rightarrow> upd_path path cork_buffer_clear s
      | Some offset \<Rightarrow> upd_path path (\<lambda>b. cork_buffer_truncate b offset) s)"

definition cork_path_dirname :: "addr \<Rightarrow> 'w cstate \<Rightarrow> addr \<times> 'w cstate" where
  "cork_path_dirname other s =
     (case cork_path_clone other s of (path, s1) \<Rightarrow> (path, cork_path_set_dirname path s1))"

text \<open>A state with one path object, at address 0, holding \<^verbatim>\<open>usr/lib\<close>.\<close>

definition path_demo :: "unit cstate" where
  "path_demo =
     \<lparr>errno = 0, cork_error = None,
      path_mem = (\<lambda>_. [])(0 := ''usr/lib''), path_brk = 1,
      file_mem = (\<lambda>_. \<lparr>file_path = 0, st_mode = 0, type = CORK_FILE_MISSING,
                          has_stat = False\<rparr>),
      file_brk = 0, world = ()\<rparr>"

section \<open>The operating system\<close>

text \<open>
  The POSIX primitives are parameters of the model.  A primitive takes \<^verbatim>\<open>errno\<close> and the
  file system as they are and returns its result with \<^verbatim>\<open>errno\<close> and the file system as it
  leaves them; \<open>sys_call\<close> runs it on the state.  Nothing is assumed of a primitive: it may
  fail with any code, and it may leave any value in \<^verbatim>\<open>errno\<close> when it succeeds, as POSIX
  allows.

  A directory stream (\<^verbatim>\<open>DIR\<close>) is the finite list of the outcomes its \<^verbatim>\<open>readdir\<close> calls
  will have: an entry, with the value the successful call leaves in \<^verbatim>\<open>errno\<close> if it
  changes it, or a failure with its code.  At the end of the list \<^verbatim>\<open>readdir\<close> returns
  \<^verbatim>\<open>NULL\<close> and leaves \<^verbatim>\<open>errno\<close> as it is, which is how POSIX reports the end of the
  directory.
\<close>

datatype readdir_outcome = Dirent string "int option" | ReadError int

type_synonym DIR = "readdir_outcome list"

record 'w posix =
  posix_stat :: "string \<Rightarrow> int \<times> 'w \<Rightarrow> (int \<times> mode_t) \<times> int \<times> 'w"
  posix_opendir :: "string \<Rightarrow> int \<times> 'w \<Rightarrow> DIR option \<times> int \<times> 'w"
  posix_closedir :: "DIR \<Rightarrow> int \<times> 'w \<Rightarrow> int \<times> int \<times> 'w"
  posix_mkdir :: "string \<Rightarrow> mode_t \<Rightarrow> int \<times> 'w \<Rightarrow> int \<times> int \<times> 'w"
  posix_rmdir :: "string \<Rightarrow> int \<times> 'w \<Rightarrow> int \<times> int \<times> 'w"
  posix_unlink :: "string \<Rightarrow> int \<times> 'w \<Rightarrow> int \<times> int \<times> 'w"

definition sys_call :: "(int \<times> 'w \<Rightarrow> 'r \<times> int \<times> 'w) \<Rightarrow> 'w cstate \<Rightarrow> 'r \<times> 'w cstate" where
  "sys_call prim s =
     (case prim (errno s, world s) of (r, e, w) \<Rightarrow> (r, s\<lparr>errno := e, world := w\<rparr>))"

fun readdir :: "DIR \<Rightarrow> 'w cstate \<Rightarrow> (string option \<times> DIR) \<times> 'w cstate" where
  "readdir [] s = ((None, []), s)"
| "readdir (Dirent d_name None # dir) s = ((Some d_name, dir), s)"
| "readdir (Dirent d_name (Some e) # dir) s = ((Some d_name, dir), s\<lparr>errno := e\<rparr>)"
| "readdir (ReadError e # dir) s = ((None, dir), s\<lparr>errno := e\<rparr>)"

text \<open>
  Modelled from the spec: libcork/helpers/errors.h and libcork/helpers/posix.h, which
  define the checking macros, are not among the sources.  A SystemError wraps an OS-level
  failure code and is propagated to the immediate caller.  In files.c the macros
  \<^verbatim>\<open>rii_check_posix\<close>, \<^verbatim>\<open>rip_check_posix\<close> and \<^verbatim>\<open>ep_check_posix\<close> are applied to the
  primitives of the operating system: a failing primitive (-1, or \<^verbatim>\<open>NULL\<close>) is recorded
  by \<^verbatim>\<open>cork_system_error_set\<close> as a SystemError wrapping \<^verbatim>\<open>errno\<close>, and the function
  returns -1.  \<^verbatim>\<open>rii_check\<close> and \<^verbatim>\<open>ei_check\<close> are applied to libcork's own functions,
  which have recorded their error when they return non-zero: the macros return -1, or
  jump to the \<^verbatim>\<open>error\<close> label, and record nothing.  All are written out where the source
  uses them; \<open>check_posix\<close> is \<^verbatim>\<open>rii_check_posix\<close> around a primitive that returns an
  \<^verbatim>\<open>int\<close>, followed by \<^verbatim>\<open>return 0\<close>.
\<close>

definition check_posix :: "int \<times> 'w cstate \<Rightarrow> int \<times> 'w cstate" where
  "check_posix r = (case r of (rc, s) \<Rightarrow> if rc = - 1 then (- 1, cork_system_error_set s) else (0, s))"

section \<open>Files\<close>

definition cork_file_init :: "addr \<Rightarrow> addr \<Rightarrow> 'w cstate \<Rightarrow> 'w cstate" where
  "cork_file_init file path s = upd_file file (\<lambda>f. f\<lparr>file_path := path, has_stat := False\<rparr>) s"

text \<open>
  \<open>file_alloc\<close> is the storage of a new \<^verbatim>\<open>struct cork_file\<close>: the \<^verbatim>\<open>cork_new\<close> of
  \<^verbatim>\<open>cork_file_new_from_path\<close>, or the frame slot of a local variable such as
  \<^verbatim>\<open>child_file\<close> and \<^verbatim>\<open>parent_file\<close>.
\<close>

definition file_alloc :: "'w cstate \<Rightarrow> addr \<times> 'w cstate" where
  "file_alloc s = (file_brk s, s\<lparr>file_brk := Suc (file_brk s)\<rparr>)"

definition cork_file_new_from_path :: "addr \<Rightarrow> 'w cstate \<Rightarrow> addr \<times> 'w cstate" where
  "cork_file_new_from_path path s =
     (case file_alloc s of (file, s1) \<Rightarrow> (file, cork_file_init file path s1))"

definition cork_file_new :: "string option \<Rightarrow> 'w cstate \<Rightarrow> addr \<times> 'w cstate" where
  "cork_file_new source s =
     (case cork_path_new source s of (path, s1) \<Rightarrow> cork_file_new_from_path path s1)"

definition cork_file_reset :: "addr \<Rightarrow> 'w cstate \<Rightarrow> 'w cstate" where
  "cork_file_reset file s = upd_file file (\<lambda>f. f\<lparr>has_stat := False\<rparr>) s"

definition cork_file_done :: "addr \<Rightarrow> 'w cstate \<Rightarrow> 'w cstate" where
  "cork_file_done file s = cork_path_free (file_path (file_mem s file)) s"

definition cork_file_path :: "addr \<Rightarrow> 'w cstate \<Rightarrow> addr" where
  "cork_file_path file s = file_path (file_mem s file)"

definition cork_file_stat :: "'w posix \<Rightarrow> addr \<Rightarrow> 'w cstate \<Rightarrow> int \<times> 'w cstate" where
  "cork_file_stat os file s =
     (if has_stat (file_mem s file) then (0, s)
      else
        case sys_call (posix_stat os (cork_path_get (file_path (file_mem s file)) s)) s of
          ((rc, m), s1) \<Rightarrow>
            if rc = - 1 then
              (if errno s1 = ENOENT \<or> errno s1 = ENOTDIR then
                 (0, upd_file file (\<lambda>f. f\<lparr>type := CORK_FILE_MISSING, has_stat := True\<rparr>) s1)
               else (- 1, cork_system_error_set s1))
            else
              let s2 = upd_file file (\<lambda>f. f\<lparr>st_mode := m\<rparr>) s1;
                  s3 = (if S_ISREG (st_mode (file_mem s2 file)) then
                          upd_file file (\<lambda>f. f\<lparr>type := CORK_FILE_REGULAR\<rparr>) s2
                        else if S_ISDIR (st_mode (file_mem s2 file)) then
                          upd_file file (\<lambda>f. f\<lparr>type := CORK_FILE_DIRECTORY\<rparr>) s2
                        else if S_ISLNK (st_mode (file_mem s2 file)) then
                          upd_file file (\<lambda>f. f\<lparr>type := CORK_FILE_SYMLINK\<rparr>) s2
                        else upd_file file (\<lambda>f. f\<lparr>type := CORK_FILE_UNKNOWN\<rparr>) s2)
              in (0, upd_file file (\<lambda>f. f\<lparr>has_stat := True\<rparr>) s3))"

definition cork_file_exists :: "'w posix \<Rightarrow> addr \<Rightarrow> 'w cstate \<Rightarrow> (int \<times> bool option) \<times> 'w cstate" where
  "cork_file_exists os file s =
     (case cork_file_stat os file s of (rc, s1) \<Rightarrow>
        if rc \<noteq> 0 then ((- 1, None), s1)
        else ((0, Some (type (file_mem s1 file) \<noteq> CORK_FILE_MISSING)), s1))"

definition cork_file_type ::
  "'w posix \<Rightarrow> addr \<Rightarrow> 'w cstate \<Rightarrow> (int \<times> cork_file_type option) \<times> 'w cstate" where
  "cork_file_type os file s =
     (case cork_file_stat os file s of (rc, s1) \<Rightarrow>
        if rc \<noteq> 0 then ((- 1, None), s1)
        else ((0, Some (type (file_mem s1 file))), s1))"

section \<open>Directories\<close>

text \<open>
  A visitor (\<^verbatim>\<open>cork_file_directory_iterator\<close>) is any function of the caller's: it is
  given the child file and the entry's name, works on the state, and returns its result,
  or does not return (\<open>None\<close>).  Its \<^verbatim>\<open>user_data\<close> is part of the function.

  \<open>iterate_leave\<close> is the code shared by the two ways out of
  \<^verbatim>\<open>cork_file_iterate_directory\<close> once the directory is open (lines 388-390 and the
  \<^verbatim>\<open>error\<close> label, lines 392-395): release the child file, close the directory, return
  \<open>rc\<close>.
\<close>

type_synonym 'w visitor = "addr \<Rightarrow> string \<Rightarrow> 'w cstate \<Rightarrow> (int \<times> 'w cstate) option"

definition iterate_leave :: "'w posix \<Rightarrow> addr \<Rightarrow> DIR \<Rightarrow> int \<Rightarrow> 'w cstate \<Rightarrow> int \<times> 'w cstate" where
  "iterate_leave os child_file dir rc s =
     (case check_posix (sys_call (posix_closedir os dir) (cork_file_done child_file s)) of
        (r, s1) \<Rightarrow> if r \<noteq> 0 then (- 1, s1) else (rc, s1))"

text \<open>
  The \<^verbatim>\<open>while\<close> loop of \<^verbatim>\<open>cork_file_iterate_directory\<close> (lines 354-380) with the check
  that follows it (lines 383-386), entered with the state as it is just before the call
  of \<^verbatim>\<open>readdir\<close>.
\<close>

function iterate_loop ::
  "'w posix \<Rightarrow> 'w visitor \<Rightarrow> addr \<Rightarrow> addr \<Rightarrow> nat \<Rightarrow> DIR \<Rightarrow> 'w cstate \<Rightarrow> (int \<times> 'w cstate) option"
  where
  "iterate_loop os iterator child_path child_file dir_path_size dir s =
     (case readdir dir s of
        ((None, dir1), s1) \<Rightarrow>
          if errno s1 \<noteq> 0 then
            Some (iterate_leave os child_file dir1 (- 1) (cork_system_error_set s1))
          else Some (iterate_leave os child_file dir1 0 s1)
      | ((Some d_name, dir1), s1) \<Rightarrow>
          if d_name = ''.'' \<or> d_name = ''..'' then
            iterate_loop os iterator child_path child_file dir_path_size dir1 s1
          else
            (case cork_file_stat os child_file (cork_path_append child_path (Some d_name) s1) of
               (rc, s2) \<Rightarrow>
                 if rc \<noteq> 0 then Some (iterate_leave os child_file dir1 (- 1) s2)
                 else
                   (case iterator child_file d_name s2 of
                      None \<Rightarrow> None
                    | Some (rc1, s3) \<Rightarrow>
                        if rc1 \<noteq> 0 then Some (iterate_leave os child_file dir1 (- 1) s3)
                        else
                          iterate_loop os iterator child_path child_file dir_path_size dir1
                            ((cork_file_reset child_file
                               (cork_path_truncate child_path dir_path_size s3))
                             \<lparr>errno := 0\<rparr>))))"
  by pat_completeness auto

termination iterate_loop
proof -
  have shorter: "length dir1 < length dir"
    if "readdir dir s = ((Some d_name, dir1), s1)"
    for dir dir1 :: DIR and d_name and s s1 :: "'a cstate"
    using that by (induction dir s rule: readdir.induct) auto
  show ?thesis
    by (relation "measure (\<lambda>(os, iterator, child_path, child_file, dir_path_size, dir, s).
          length dir)")
      (auto dest: shorter [OF sym])
qed

definition cork_file_iterate_directory ::
  "'w posix \<Rightarrow> addr \<Rightarrow> 'w visitor \<Rightarrow> 'w cstate \<Rightarrow> (int \<times> 'w cstate) option" where
  "cork_file_iterate_directory os file iterator s =
     (case sys_call (posix_opendir os (cork_path_get (file_path (file_mem s file)) s)) s of
        (None, s1) \<Rightarrow> Some (- 1, cork_system_error_set s1)
      | (Some dir, s1) \<Rightarrow>
          (case cork_path_clone (file_path (file_mem s1 file)) s1 of
             (child_path, s2) \<Rightarrow>
               (case file_alloc s2 of
                  (child_file, s3) \<Rightarrow>
                    let s4 = cork_file_init child_file child_path s3;
                        dir_path_size = cork_path_size child_path s4
                    in iterate_loop os iterator child_path child_file dir_path_size dir
                         (s4\<lparr>errno := 0\<rparr>))))"

text \<open>
  \<^verbatim>\<open>cork_file_mkdir_one\<close> calls itself on the parent directory, whose path is strictly
  shorter: the recursion ends.
\<close>

function cork_file_mkdir_one ::
  "'w posix \<Rightarrow> addr \<Rightarrow> mode_t \<Rightarrow> flags_t \<Rightarrow> 'w cstate \<Rightarrow> int \<times> 'w cstate" where
  "cork_file_mkdir_one os file mode flags s =
     (case cork_file_stat os file s of
        (rc, s1) \<Rightarrow>
          if rc \<noteq> 0 then (- 1, s1)
          else if type (file_mem s1 file) = CORK_FILE_DIRECTORY then
            (if flags AND CORK_FILE_PERMISSIVE = 0
             then (- 1, cork_system_error_set_explicit EEXIST s1)
             else (0, s1))
          else if type (file_mem s1 file) \<noteq> CORK_FILE_MISSING then
            (- 1, cork_system_error_set_explicit EEXIST s1)
          else
            (case
               (if flags AND CORK_FILE_RECURSIVE \<noteq> 0 then
                  (case cork_path_dirname (file_path (file_mem s1 file)) s1 of
                     (parent, s2) \<Rightarrow>
                       if cork_path_size parent s2 = 0 then (0, cork_path_free parent s2)
                       else
                         (case file_alloc s2 of
                            (parent_file, s3) \<Rightarrow>
                              (case cork_file_mkdir_one os parent_file mode
                                      (flags OR CORK_FILE_PERMISSIVE)
                                      (cork_file_init parent_file parent s3) of
                                 (rc1, s4) \<Rightarrow> (rc1, cork_file_done parent_file s4))))
                else (0, s1))
             of
               (rc2, s5) \<Rightarrow>
                 if rc2 \<noteq> 0 then (- 1, s5)
                 else
                   check_posix
                     (sys_call
                        (posix_mkdir os (cork_path_get (file_path (file_mem s5 file)) s5) mode)
                        s5)))"
  by pat_completeness auto

termination cork_file_mkdir_one
proof -
  have stat_keeps: "path_mem (snd (cork_file_stat os f s)) = path_mem s \<and>
      file_path (file_mem (snd (cork_file_stat os f s)) f) = file_path (file_mem s f)"
    for os :: "'a posix" and f s
    by (auto simp: cork_file_stat_def cork_system_error_set_def Let_def upd_file_def
        sys_call_def split: prod.splits)
  have last_slash: "strrchr g c = Some i \<Longrightarrow> i < length g" for g c i
    by (induction g arbitrary: i) (auto split: option.splits if_splits)
  have parent_shorter:
    "length (path_mem (snd (cork_path_dirname p s)) (fst (cork_path_dirname p s)))
       < length (path_mem s p)"
    if "cork_path_size (fst (cork_path_dirname p s)) (snd (cork_path_dirname p s)) \<noteq> 0"
    for p and s :: "'a cstate"
    using that
    by (auto simp: cork_path_size_def cork_path_dirname_def cork_path_set_dirname_def
        cork_path_clone_def cork_path_new_internal_def upd_path_def Let_def
        cork_buffer_copy_def cork_buffer_truncate_def cork_buffer_clear_def
        split: option.splits if_splits dest: last_slash)
  show ?thesis
  proof (relation "measure (\<lambda>(os, f, mode, flags, s).
      length (path_mem s (file_path (file_mem s f))))", goal_cases)
    case 1
    show ?case by simp
  next
    case (2 os f mode flags s rc s1 parent s2 parent_file s3)
    from 2 have s1: "s1 = snd (cork_file_stat os f s)" by (metis snd_conv)
    from 2 have d: "parent = fst (cork_path_dirname (file_path (file_mem s1 f)) s1)"
      "s2 = snd (cork_path_dirname (file_path (file_mem s1 f)) s1)"
      by (metis fst_conv, metis snd_conv)
    from 2 have a: "parent_file = file_brk s2" "s3 = s2\<lparr>file_brk := Suc (file_brk s2)\<rparr>"
      by (auto simp: file_alloc_def)
    have "length (path_mem s2 parent) < length (path_mem s1 (file_path (file_mem s1 f)))"
      using 2 unfolding d by (intro parent_shorter) simp
    then show ?case
      by (simp add: a cork_file_init_def upd_file_def s1 stat_keeps)
  qed
qed

definition cork_file_mkdir ::
  "'w posix \<Rightarrow> addr \<Rightarrow> mode_t \<Rightarrow> flags_t \<Rightarrow> 'w cstate \<Rightarrow> int \<times> 'w cstate" where
  "cork_file_mkdir os file mode flags s = cork_file_mkdir_one os file mode flags s"

text \<open>
  \<^verbatim>\<open>cork_file_remove\<close> and \<^verbatim>\<open>cork_file_remove_iterator\<close> call each other through
  \<^verbatim>\<open>cork_file_iterate_directory\<close>, as deep as the directory tree the operating system
  shows, which nothing bounds.  The first argument of \<open>cork_file_remove\<close> bounds the
  depth of the calls: \<open>None\<close> says that the call needs a deeper recursion than that to
  return (or that a visitor did not return).  \<^verbatim>\<open>cork_file_remove_iterator\<close> takes the
  function it calls as its first argument; its \<^verbatim>\<open>user_data\<close> points to the flags.
\<close>

definition cork_file_remove_iterator ::
  "(addr \<Rightarrow> flags_t \<Rightarrow> 'w cstate \<Rightarrow> (int \<times> 'w cstate) option) \<Rightarrow>
     flags_t \<Rightarrow> 'w visitor" where
  "cork_file_remove_iterator remove user_data file rel_name s = remove file user_data s"

primrec cork_file_remove ::
  "nat \<Rightarrow> 'w posix \<Rightarrow> addr \<Rightarrow> flags_t \<Rightarrow> 'w cstate \<Rightarrow> (int \<times> 'w cstate) option" where
  "cork_file_remove 0 os file flags s = None"
| "cork_file_remove (Suc depth) os file flags s =
     (case cork_file_stat os file s of
        (rc, s1) \<Rightarrow>
          if rc \<noteq> 0 then Some (- 1, s1)
          else if type (file_mem s1 file) = CORK_FILE_MISSING then
            (if flags AND CORK_FILE_PERMISSIVE \<noteq> 0 then Some (0, s1)
             else Some (- 1, cork_system_error_set_explicit ENOENT s1))
          else if type (file_mem s1 file) = CORK_FILE_DIRECTORY then
            (case
               (if flags AND CORK_FILE_RECURSIVE \<noteq> 0 then
                  cork_file_iterate_directory os file
                    (cork_file_remove_iterator (cork_file_remove depth os) flags) s1
                else Some (0, s1))
             of
               None \<Rightarrow> None
             | Some (rc1, s2) \<Rightarrow>
                 if rc1 \<noteq> 0 then Some (- 1, s2)
                 else
                   Some (check_posix
                     (sys_call (posix_rmdir os (cork_path_get (file_path (file_mem s2 file)) s2))
                        s2)))
          else
            (case sys_call (posix_unlink os (cork_path_get (file_path (file_mem s1 file)) s1)) s1 of
               (rc1, s2) \<Rightarrow> if rc1 \<noteq> 0 then Some (- 1, s2) else Some (0, s2)))"

section \<open>A small file system\<close>

text \<open>
  One instance of the operating system, for running the model: the file system is a list
  of entries, each a path with its mode; a primitive that fails sets \<^verbatim>\<open>errno\<close>, one that
  succeeds leaves it alone; a directory lists \<^verbatim>\<open>.\<close>, \<^verbatim>\<open>..\<close> and its children.
\<close>

type_synonym demo_fs = "(string \<times> mode_t) list"

definition demo_children :: "demo_fs \<Rightarrow> string \<Rightarrow> string list" where
  "demo_children fs d =
     map (\<lambda>(p, m). drop (Suc (length d)) p)
       (filter (\<lambda>(p, m). take (Suc (length d)) p = d @ ''/'' \<and>
                          CHR ''/'' \<notin> set (drop (Suc (length d)) p)) fs)"

definition demo_stat :: "string \<Rightarrow> int \<times> demo_fs \<Rightarrow> (int \<times> mode_t) \<times> int \<times> demo_fs" where
  "demo_stat p = (\<lambda>(e, fs).
     case map_of fs p of
       None \<Rightarrow> ((- 1, 0), ENOENT, fs)
     | Some m \<Rightarrow> ((0, m), e, fs))"

definition demo_mkdir :: "string \<Rightarrow> mode_t \<Rightarrow> int \<times> demo_fs \<Rightarrow> int \<times> int \<times> demo_fs" where
  "demo_mkdir p mode = (\<lambda>(e, fs).
     case map_of fs p of
       Some m \<Rightarrow> (- 1, EEXIST, fs)
     | None \<Rightarrow> (0, e, (p, S_IFDIR OR mode) # fs))"

definition demo_rmdir :: "string \<Rightarrow> int \<times> demo_fs \<Rightarrow> int \<times> int \<times> demo_fs" where
  "demo_rmdir p = (\<lambda>(e, fs).
     case map_of fs p of
       None \<Rightarrow> (- 1, ENOENT, fs)
     | Some m \<Rightarrow>
         if \<not> S_ISDIR m then (- 1, ENOTDIR, fs)
         else if demo_children fs p \<noteq> [] then (- 1, ENOTEMPTY, fs)
         else (0, e, filter (\<lambda>(q, m). q \<noteq> p) fs))"

definition demo_unlink :: "string \<Rightarrow> int \<times> demo_fs \<Rightarrow> int \<times> int \<times> demo_fs" where
  "demo_unlink p = (\<lambda>(e, fs).
     case map_of fs p of
       None \<Rightarrow> (- 1, ENOENT, fs)
     | Some m \<Rightarrow>
         if S_ISDIR m then (- 1, EISDIR, fs)
         else (0, e, filter (\<lambda>(q, m). q \<noteq> p) fs))"

definition demo_opendir :: "string \<Rightarrow> int \<times> demo_fs \<Rightarrow> DIR option \<times> int \<times> demo_fs" where
  "demo_opendir p = (\<lambda>(e, fs).
     case map_of fs p of
       None \<Rightarrow> (None, ENOENT, fs)
     | Some m \<Rightarrow>
         if \<not> S_ISDIR m then (None, ENOTDIR, fs)
         else (Some (Dirent ''.'' None # Dirent ''..'' None #
                     map (\<lambda>n. Dirent n None) (demo_children fs p)), e, fs))"

definition demo_closedir :: "DIR \<Rightarrow> int \<times> demo_fs \<Rightarrow> int \<times> int \<times> demo_fs" where
  "demo_closedir dir = (\<lambda>(e, fs). (0, e, fs))"

definition demo_posix :: "demo_fs posix" where
  "demo_posix =
     \<lparr>posix_stat = demo_stat, posix_opendir = demo_opendir, posix_closedir = demo_closedir,
      posix_mkdir = demo_mkdir, posix_rmdir = demo_rmdir, posix_unlink = demo_unlink\<rparr>"

text \<open>
  \<open>demo_state fs p\<close>: the file system \<open>fs\<close>, and one file object, at address 0, whose
  path object, at address 0, holds \<open>p\<close>; nothing is cached, no error is recorded.
\<close>

definition demo_state :: "demo_fs \<Rightarrow> string \<Rightarrow> demo_fs cstate" where
  "demo_state fs p =
     \<lparr>errno = 0, cork_error = None,
      path_mem = (\<lambda>_. [])(0 := p), path_brk = 1,
      file_mem = (\<lambda>_. \<lparr>file_path = 0, st_mode = 0, type = CORK_FILE_MISSING,
                          has_stat = False\<rparr>),
      file_brk = 1, world = fs\<rparr>"

text \<open>
  Variations of it: a primitive that fails with a given code whatever it is asked, a file
  system with a directory \<^verbatim>\<open>d\<close> holding a regular file and a subdirectory, and a visitor
  that classifies the child it is handed.
\<close>

definition demo_fail :: "'r \<Rightarrow> int \<Rightarrow> int \<times> demo_fs \<Rightarrow> 'r \<times> int \<times> demo_fs" where
  "demo_fail r code = (\<lambda>(e, fs). (r, code, fs))"

definition demo_stat_denied :: "demo_fs posix" where
  "demo_stat_denied = demo_posix\<lparr>posix_stat := (\<lambda>p. demo_fail (- 1, 0) EACCES)\<rparr>"

definition demo_tree :: demo_fs where
  "demo_tree = [(''d/a.txt'', 33188), (''d/sub'', 16877), (''d'', 16877)]"

definition classify_visitor :: "'w posix \<Rightarrow> 'w visitor" where
  "classify_visitor os child rel_name t = Some (cork_file_stat os child t)"

text \<open>
  Operating systems that differ from the small one in one primitive: a directory stream
  whose successful read of \<^verbatim>\<open>.\<close> leaves a non-zero \<^verbatim>\<open>errno\<close> (as a library routine that
  falls back from a missing system call does), one whose successful read of a visited
  entry does, an \<^verbatim>\<open>unlink\<close> that is refused, and an \<^verbatim>\<open>rmdir\<close> that is refused.
  \<open>outcome\<close> is what a caller sees of a call that returns: the return code, libcork's
  error slot and the file system.
\<close>

definition ENOSYS :: int where "ENOSYS = 38"

definition demo_dots_errno :: "demo_fs posix" where
  "demo_dots_errno =
     demo_posix\<lparr>posix_opendir :=
       (\<lambda>p (e, fs). (Some [Dirent ''.'' (Some ENOSYS), Dirent ''..'' None], e, fs))\<rparr>"

definition demo_entry_errno :: "demo_fs posix" where
  "demo_entry_errno =
     demo_posix\<lparr>posix_opendir :=
       (\<lambda>p (e, fs). (Some [Dirent ''a.txt'' (Some ENOSYS)], e, fs))\<rparr>"

definition demo_unlink_denied :: "demo_fs posix" where
  "demo_unlink_denied = demo_posix\<lparr>posix_unlink := (\<lambda>p. demo_fail (- 1) EACCES)\<rparr>"

definition demo_rmdir_denied :: "demo_fs posix" where
  "demo_rmdir_denied = demo_posix\<lparr>posix_rmdir := (\<lambda>p. demo_fail (- 1) EACCES)\<rparr>"

definition outcome :: "(int \<times> 'w cstate) option \<Rightarrow> (int \<times> error option \<times> 'w) option" where
  "outcome r = map_option (\<lambda>(rc, s). (rc, cork_error s, world s)) r"

definition demo_ab :: "demo_fs cstate" where
  "demo_ab = demo_state [] ''a/b''"

text \<open>
  The last step of \<^verbatim>\<open>cork_file_mkdir_one\<close> (line 443), the creation of the directory
  itself, on a path text \<open>p\<close>: \<^verbatim>\<open>rii_check_posix(mkdir(p, mode))\<close>.
\<close>

definition mkdir_leaf :: "'w posix \<Rightarrow> string \<Rightarrow> mode_t \<Rightarrow> 'w cstate \<Rightarrow> int \<times> 'w cstate" where
  "mkdir_leaf os p mode t = check_posix (sys_call (posix_mkdir os p mode) t)"

section \<open>What a call leaves untouched\<close>

text \<open>
  Four relations between the state before and the state after a piece of code, used to
  say which objects it can have written.  \<open>touch cp cf\<close>: nothing is allocated and no
  object but the path \<open>cp\<close> and the file \<open>cf\<close> is written.  \<open>grow cp cf\<close>: the same, but
  objects may be allocated.  \<open>kept\<close>: every object allocated before is as it was.
  \<open>frame f\<close>: every object allocated before, but the file \<open>f\<close>, is as it was.
\<close>

definition touch :: "addr \<Rightarrow> addr \<Rightarrow> 'w cstate \<Rightarrow> 'w cstate \<Rightarrow> bool" where
  "touch cp cf t t' \<longleftrightarrow>
     path_brk t' = path_brk t \<and> file_brk t' = file_brk t \<and>
     (\<forall>q. q \<noteq> cp \<longrightarrow> path_mem t' q = path_mem t q) \<and>
     (\<forall>a. a \<noteq> cf \<longrightarrow> file_mem t' a = file_mem t a)"

definition grow :: "addr \<Rightarrow> addr \<Rightarrow> 'w cstate \<Rightarrow> 'w cstate \<Rightarrow> bool" where
  "grow cp cf s t \<longleftrightarrow>
     path_brk s \<le> path_brk t \<and> file_brk s \<le> file_brk t \<and>
     (\<forall>q. q \<noteq> cp \<longrightarrow> path_mem t q = path_mem s q) \<and>
     (\<forall>a. a \<noteq> cf \<longrightarrow> file_mem t a = file_mem s a)"

definition kept :: "'w cstate \<Rightarrow> 'w cstate \<Rightarrow> bool" where
  "kept s s' \<longleftrightarrow>
     path_brk s \<le> path_brk s' \<and> file_brk s \<le> file_brk s' \<and>
     (\<forall>q<path_brk s. path_mem s' q = path_mem s q) \<and>
     (\<forall>a<file_brk s. file_mem s' a = file_mem s a)"

definition frame :: "addr \<Rightarrow> 'w cstate \<Rightarrow> 'w cstate \<Rightarrow> bool" where
  "frame f s s' \<longleftrightarrow>
     path_brk s \<le> path_brk s' \<and> file_brk s \<le> file_brk s' \<and>
     (\<forall>q<path_brk s. path_mem s' q = path_mem s q) \<and>
     (\<forall>a<file_brk s. a \<noteq> f \<longrightarrow> file_mem s' a = file_mem s a)"

section \<open>Properties of the ring buffer\<close>

lemma size_t_id: "n < 2 ^ 64 \<Longrightarrow> size_t n = n"
  by (simp add: size_t_def)

lemma mod_inj_window:
  fixes r i n c :: nat
  assumes "i < n" "n < c" "(r + i) mod c = (r + n) mod c"
  shows False
proof -
  have "(r + n) mod c = (r + i) mod c" using assms(3) by simp
  moreover have "r + i \<le> r + n" using assms(1) by simp
  ultimately have "c dvd (r + n) - (r + i)"
    by (simp only: mod_eq_dvd_iff_nat)
  then have "c dvd n - i" by simp
  moreover have "0 < n - i" "n - i < c" using assms by simp_all
  ultimately show False by (meson nat_dvd_not_less)
qed

lemma add_step:
  assumes wf: "rb_wf rb" and nf: "size_rb rb \<noteq> allocated_size rb"
  shows "fst (cork_ring_buffer_add rb x) = 0"
    and "rb_wf (snd (cork_ring_buffer_add rb x))"
    and "rb_contents (snd (cork_ring_buffer_add rb x)) = rb_contents rb @ [x]"
    and "size_rb (snd (cork_ring_buffer_add rb x)) = Suc (size_rb rb)"
    and "allocated_size (snd (cork_ring_buffer_add rb x)) = allocated_size rb"
proof -
  let ?c = "allocated_size rb" and ?n = "size_rb rb" and ?r = "read_index rb" and ?w = "write_index rb"
  from wf nf have c: "?c < 2 ^ 64" "?n < ?c" "?r < ?c" "?w = (?r + ?n) mod ?c"
    by (auto simp: rb_wf_def split: if_splits)
  then have w: "?w < ?c" by simp
  have s1: "size_t (?w + 1) = ?w + 1" "size_t (?n + 1) = ?n + 1"
    using c(1,2) w by (simp_all add: size_t_id del: One_nat_def)
  have wnext: "(if ?w + 1 = ?c then 0 else ?w + 1) = (?r + Suc ?n) mod ?c"
    using c w by (simp add: mod_Suc)
  have eq: "snd (cork_ring_buffer_add rb x) =
      rb\<lparr>elements := (elements rb)(?w := x), size_rb := ?n + 1,
         write_index := (?r + Suc ?n) mod ?c\<rparr>"
  proof (cases "?w + 1 = ?c")
    case True
    with wnext have "(?r + Suc ?n) mod ?c = 0" by simp
    then show ?thesis using nf s1 True
      by (simp add: cork_ring_buffer_add_def cork_ring_buffer_is_full_def Let_def del: One_nat_def)
  next
    case False
    with wnext have "(?r + Suc ?n) mod ?c = ?w + 1" by simp
    then show ?thesis using nf s1 False
      by (simp add: cork_ring_buffer_add_def cork_ring_buffer_is_full_def Let_def del: One_nat_def)
  qed
  show "fst (cork_ring_buffer_add rb x) = 0"
    using nf by (simp add: cork_ring_buffer_add_def cork_ring_buffer_is_full_def Let_def)
  show "size_rb (snd (cork_ring_buffer_add rb x)) = Suc (size_rb rb)"
    by (simp add: eq)
  show "allocated_size (snd (cork_ring_buffer_add rb x)) = allocated_size rb"
    by (simp add: eq)
  show "rb_wf (snd (cork_ring_buffer_add rb x))"
    using c by (simp add: eq rb_wf_def)
  have old: "\<And>i. i < ?n \<Longrightarrow> (?r + i) mod ?c \<noteq> ?w"
    using c mod_inj_window[of _ ?n ?c ?r] by auto
  show "rb_contents (snd (cork_ring_buffer_add rb x)) = rb_contents rb @ [x]"
    using c(4) old by (simp add: eq rb_contents_def)
qed

lemma pop_step:
  assumes wf: "rb_wf rb" and ne: "size_rb rb \<noteq> 0"
  shows "fst (cork_ring_buffer_pop rb) = hd (rb_contents rb)"
    and "rb_wf (snd (cork_ring_buffer_pop rb))"
    and "rb_contents (snd (cork_ring_buffer_pop rb)) = tl (rb_contents rb)"
    and "size_rb (snd (cork_ring_buffer_pop rb)) = size_rb rb - 1"
    and "allocated_size (snd (cork_ring_buffer_pop rb)) = allocated_size rb"
proof -
  let ?c = "allocated_size rb" and ?n = "size_rb rb" and ?r = "read_index rb" and ?w = "write_index rb"
  from wf ne have c: "?c < 2 ^ 64" "?n \<le> ?c" "0 < ?n" "?r < ?c" "?w = (?r + ?n) mod ?c"
    by (auto simp: rb_wf_def split: if_splits)
  have s1: "size_t (?r + 1) = ?r + 1"
    using c by (simp add: size_t_id del: One_nat_def)
  have s2: "size_t (?n + 2 ^ 64 - 1) = ?n - 1"
  proof -
    have "?n + 2 ^ 64 - 1 = (?n - 1) + 1 * 2 ^ 64" using c(3) by simp
    then have "size_t (?n + 2 ^ 64 - 1) = (?n - 1) mod 2 ^ 64"
      unfolding size_t_def by (simp only: mod_mult_self1)
    also have "\<dots> = ?n - 1" using c by simp
    finally show ?thesis .
  qed
  have rnext: "(if ?r + 1 = ?c then 0 else ?r + 1) = Suc ?r mod ?c"
    using c by (simp add: mod_Suc)
  have eq: "snd (cork_ring_buffer_pop rb) = rb\<lparr>size_rb := ?n - 1, read_index := Suc ?r mod ?c\<rparr>"
  proof (cases "?r + 1 = ?c")
    case True
    with rnext have "Suc ?r mod ?c = 0" by simp
    then show ?thesis using ne s1 s2 True
      by (simp add: cork_ring_buffer_pop_def cork_ring_buffer_is_empty_def Let_def del: One_nat_def)
  next
    case False
    with rnext have "Suc ?r mod ?c = ?r + 1" by simp
    then show ?thesis using ne s1 s2 False
      by (simp add: cork_ring_buffer_pop_def cork_ring_buffer_is_empty_def Let_def del: One_nat_def)
  qed
  have cont: "rb_contents rb = elements rb ?r # map (\<lambda>i. elements rb ((?r + Suc i) mod ?c)) [0 ..< ?n - 1]"
  proof -
    have "[0 ..< ?n] = 0 # map Suc [0 ..< ?n - 1]"
      using c(3) by (metis Suc_pred' map_Suc_upt upt_conv_Cons)
    then show ?thesis using c(4) by (simp add: rb_contents_def comp_def)
  qed
  show "fst (cork_ring_buffer_pop rb) = hd (rb_contents rb)"
    using ne by (simp add: cont cork_ring_buffer_pop_def cork_ring_buffer_is_empty_def Let_def)
  show "size_rb (snd (cork_ring_buffer_pop rb)) = size_rb rb - 1"
    by (simp add: eq)
  show "allocated_size (snd (cork_ring_buffer_pop rb)) = allocated_size rb"
    by (simp add: eq)
  have idx: "\<And>i. (Suc ?r mod ?c + i) mod ?c = (?r + Suc i) mod ?c"
    by (metis add_Suc add_Suc_right mod_add_left_eq)
  show "rb_wf (snd (cork_ring_buffer_pop rb))"
    using c idx[of "?n - 1"] by (simp add: eq rb_wf_def)
  show "rb_contents (snd (cork_ring_buffer_pop rb)) = tl (rb_contents rb)"
    unfolding cont by (simp add: eq rb_contents_def idx)
qed

lemma rb_run_fifo_aux:
  "rb_wf rb \<Longrightarrow> adds_fit (allocated_size rb) (size_rb rb) cs \<Longrightarrow>
   rb_run rb cs = fifo_run (rb_contents rb) cs"
proof (induction cs arbitrary: rb)
  case Nil
  then show ?case by simp
next
  case (Cons c cs)
  show ?case
  proof (cases c)
    case (Add x)
    with Cons.prems have nf: "size_rb rb \<noteq> allocated_size rb"
      and fit: "adds_fit (allocated_size rb) (Suc (size_rb rb)) cs" by simp_all
    note st = add_step[OF Cons.prems(1) nf, of x]
    have "rb_run (snd (cork_ring_buffer_add rb x)) cs =
          fifo_run (rb_contents (snd (cork_ring_buffer_add rb x))) cs"
      using st fit by (intro Cons.IH) simp_all
    then show ?thesis using Add st by simp
  next
    case Pop
    show ?thesis
    proof (cases "size_rb rb = 0")
      case True
      then have "cork_ring_buffer_pop rb = (NULL, rb)" "rb_contents rb = []"
        by (simp_all add: cork_ring_buffer_pop_def cork_ring_buffer_is_empty_def rb_contents_def)
      moreover have "rb_run rb cs = fifo_run (rb_contents rb) cs"
        using Cons.prems Pop True by (intro Cons.IH) simp_all
      ultimately show ?thesis using Pop by simp
    next
      case False
      note st = pop_step[OF Cons.prems(1) False]
      have "rb_run (snd (cork_ring_buffer_pop rb)) cs =
            fifo_run (rb_contents (snd (cork_ring_buffer_pop rb))) cs"
        using st Cons.prems Pop by (intro Cons.IH) simp_all
      moreover have "rb_contents rb \<noteq> []" using False by (simp add: rb_contents_def)
      then obtain y q where yq: "rb_contents rb = y # q" by (cases "rb_contents rb") auto
      ultimately show ?thesis using Pop st yq by simp
    qed
  qed
qed

lemma rb_wf_init:
  "mem \<noteq> NULL \<Longrightarrow> sz < 2 ^ 64 \<Longrightarrow> rb_wf (snd (cork_ring_buffer_init mem self sz))"
  by (simp add: cork_ring_buffer_init_def rb_wf_def)

lemma cork_ring_buffer_init_ok:
  "mem \<noteq> NULL \<Longrightarrow>
   cork_ring_buffer_init mem self sz =
     (0, self\<lparr>elements_ptr := mem, elements := (\<lambda>_. NULL), allocated_size := sz,
              size_rb := 0, read_index := 0, write_index := 0\<rparr>)"
  by (simp add: cork_ring_buffer_init_def)

lemma cork_ring_buffer_init_failed:
  "cork_ring_buffer_init NULL self sz = (- 1, self\<lparr>elements_ptr := NULL\<rparr>)"
  by (simp add: cork_ring_buffer_init_def)

lemma rb_wf_add: "rb_wf rb \<Longrightarrow> rb_wf (snd (cork_ring_buffer_add rb x))"
  using add_step(2) [of rb x]
  by (cases "size_rb rb = allocated_size rb")
    (simp_all add: cork_ring_buffer_add_def cork_ring_buffer_is_full_def)

lemma rb_wf_pop: "rb_wf rb \<Longrightarrow> rb_wf (snd (cork_ring_buffer_pop rb))"
  using pop_step(2) [of rb]
  by (cases "size_rb rb = 0")
    (simp_all add: cork_ring_buffer_pop_def cork_ring_buffer_is_empty_def)

text \<open>
  C8.  A buffer whose element count equals its allocated capacity refuses a further
  element: \<^verbatim>\<open>cork_ring_buffer_add\<close> returns -1 and the buffer it leaves is the buffer it
  was given, in every field (stored elements, size, read index, write index).
\<close>

theorem cork_ring_buffer_add_full:
  "size_rb self = allocated_size self \<Longrightarrow>
   cork_ring_buffer_add self element = (- 1, self)"
  by (simp add: cork_ring_buffer_add_def cork_ring_buffer_is_full_def)

theorem cork_ring_buffer_add_full_witness:
  "size_rb rb_demo_full = allocated_size rb_demo_full \<and>
   cork_ring_buffer_add rb_demo_full 13 = (- 1, rb_demo_full)"
  using cork_ring_buffer_add_full [of rb_demo_full 13]
  by (simp add: rb_demo_full_def)

text \<open>
  C9.  On a well-formed buffer, a sequence of add and pop calls in which no add is
  attempted on a full buffer returns, pop by pop, what the first-in-first-out queue
  returns: each pop of a non-empty buffer yields the oldest element not yet popped.  A
  pop of an empty buffer returns \<^verbatim>\<open>NULL\<close> and leaves the buffer as it was.
\<close>

theorem cork_ring_buffer_fifo:
  assumes "rb_wf self"
    and "adds_fit (allocated_size self) (size_rb self) cs"
  shows "rb_run self cs = fifo_run (rb_contents self) cs \<and>
         (cork_ring_buffer_is_empty self \<longrightarrow> cork_ring_buffer_pop self = (NULL, self))"
  using rb_run_fifo_aux [OF assms] by (simp add: cork_ring_buffer_pop_def)

theorem cork_ring_buffer_fifo_witness:
  "rb_wf rb_demo_empty \<and>
   adds_fit (allocated_size rb_demo_empty) (size_rb rb_demo_empty)
     [Add 5, Add 6, Pop, Add 7, Pop, Pop, Pop] \<and>
   rb_run rb_demo_empty [Add 5, Add 6, Pop, Add 7, Pop, Pop, Pop] = [5, 6, 7, NULL] \<and>
   cork_ring_buffer_is_empty rb_demo_empty \<and>
   cork_ring_buffer_pop rb_demo_empty = (NULL, rb_demo_empty)"
proof -
  have wf: "rb_wf rb_demo_empty"
    by (simp add: rb_wf_def rb_demo_empty_def)
  have fit: "adds_fit (allocated_size rb_demo_empty) (size_rb rb_demo_empty)
      [Add 5, Add 6, Pop, Add 7, Pop, Pop, Pop]"
    by (simp add: rb_demo_empty_def)
  have emp: "cork_ring_buffer_is_empty rb_demo_empty"
    by (simp add: cork_ring_buffer_is_empty_def rb_demo_empty_def)
  have "rb_contents rb_demo_empty = []"
    by (simp add: rb_contents_def rb_demo_empty_def)
  with cork_ring_buffer_fifo [OF wf fit] wf fit emp show ?thesis
    by simp
qed

section \<open>Properties of paths\<close>

lemma strrchr_Some:
  "strrchr g c = Some i \<Longrightarrow> i < length g \<and> g ! i = c \<and> take i g @ c # drop (Suc i) g = g"
  by (induction g arbitrary: i) (auto split: option.splits if_splits)

lemma strrchr_None: "strrchr g c = None \<longleftrightarrow> c \<notin> set g"
  by (induction g) (auto split: option.splits)

lemma strrchr_lt: "strrchr g c = Some i \<Longrightarrow> i < length g"
  using strrchr_Some by blast

lemma path_mem_upd_path [simp]:
  "path_mem (upd_path p f s) q = (if q = p then f (path_mem s p) else path_mem s q)"
  by (simp add: upd_path_def)

lemma path_brk_upd_path [simp]: "path_brk (upd_path p f s) = path_brk s"
  by (simp add: upd_path_def)

lemma upd_path_other [simp]:
  "cork_error (upd_path p g s) = cork_error s"
  "errno (upd_path p g s) = errno s"
  "world (upd_path p g s) = world s"
  "file_mem (upd_path p g s) = file_mem s"
  "file_brk (upd_path p g s) = file_brk s"
  by (simp_all add: upd_path_def)

lemma cork_path_clone_eqs:
  "fst (cork_path_clone other s) = path_brk s"
  "path_brk (snd (cork_path_clone other s)) = Suc (path_brk s)"
  "other \<noteq> path_brk s \<Longrightarrow> path_mem (snd (cork_path_clone other s)) q =
     (if q = path_brk s then path_mem s other else path_mem s q)"
  by (simp_all add: cork_path_clone_def cork_path_new_internal_def cork_buffer_copy_def)

lemma cork_path_clone_mem:
  "path_mem (snd (cork_path_clone other s)) q =
     (if q = path_brk s then (if other = path_brk s then [] else path_mem s other)
      else path_mem s q)"
  by (simp add: cork_path_clone_def cork_path_new_internal_def cork_buffer_copy_def)

lemma path_mem_append_other:
  "q \<noteq> p \<Longrightarrow> path_mem (cork_path_append p more_str s) q = path_mem s q"
  by (simp add: cork_path_append_def Let_def split: option.splits list.splits)

text \<open>
  C6.  When \<open>more_str\<close> begins with a separator, \<^verbatim>\<open>cork_path_append\<close> replaces the
  contents of the path by \<open>more_str\<close>, whatever the path held; so \<^verbatim>\<open>cork_path_join\<close>
  of any path with such a string (\<^verbatim>\<open>"/abs"\<close>, say) yields exactly that string; and
  \<^verbatim>\<open>cork_path_join\<close>, with any second argument, leaves its source path as it was.
\<close>

theorem cork_path_append_absolute:
  assumes "other < path_brk s"
  shows "path_mem (cork_path_append path (Some (CHR ''/'' # rest)) s) path = CHR ''/'' # rest \<and>
         path_mem (snd (cork_path_join other (Some (CHR ''/'' # rest)) s))
           (fst (cork_path_join other (Some (CHR ''/'' # rest)) s)) = CHR ''/'' # rest \<and>
         path_mem (snd (cork_path_join other more_str s)) other = path_mem s other"
proof -
  from assms have ne: "other \<noteq> path_brk s" by simp
  have a: "path_mem (cork_path_append path (Some (CHR ''/'' # rest)) s) path = CHR ''/'' # rest"
    by (simp add: cork_path_append_def cork_buffer_set_string_def)
  have b: "path_mem (snd (cork_path_join other (Some (CHR ''/'' # rest)) s))
      (fst (cork_path_join other (Some (CHR ''/'' # rest)) s)) = CHR ''/'' # rest"
    by (simp add: cork_path_join_def cork_path_append_def cork_buffer_set_string_def
        split: prod.splits)
  have c: "path_mem (snd (cork_path_join other more_str s)) other = path_mem s other"
    using ne cork_path_clone_eqs(3) [OF ne, of other]
    by (simp add: cork_path_join_def case_prod_beta cork_path_clone_eqs(1)
        path_mem_append_other)
  from a b c show ?thesis by simp
qed

theorem cork_path_append_absolute_witness:
  "(0 :: addr) < path_brk path_demo \<and>
   path_mem path_demo 0 = ''usr/lib'' \<and>
   path_mem (cork_path_append 0 (Some ''/abs'') path_demo) 0 = ''/abs'' \<and>
   path_mem (snd (cork_path_join 0 (Some ''/abs'') path_demo))
     (fst (cork_path_join 0 (Some ''/abs'') path_demo)) = ''/abs'' \<and>
   path_mem (snd (cork_path_join 0 (Some ''etc'') path_demo)) 0 = ''usr/lib''"
proof -
  have h: "(0 :: addr) < path_brk path_demo"
    by (simp add: path_demo_def)
  have m: "path_mem path_demo 0 = ''usr/lib''"
    by (simp add: path_demo_def)
  from cork_path_append_absolute [OF h, of 0 "''abs''" "Some ''etc''"]
    cork_path_append_absolute [OF h, of 0 "''abs''" "Some ''/abs''"] h m
  show ?thesis by simp
qed

lemma set_dirname_mem:
  "path_mem (cork_path_set_dirname p s) q =
     (if q = p then (case strrchr (path_mem s p) CHR ''/'' of
                       None \<Rightarrow> [] | Some i \<Rightarrow> take i (path_mem s p))
      else path_mem s q)"
  by (auto simp: cork_path_set_dirname_def Let_def cork_buffer_clear_def
      cork_buffer_truncate_def split: option.splits)

lemma set_basename_mem:
  "path_mem (cork_path_set_basename p s) q =
     (if q = p then (case strrchr (path_mem s p) CHR ''/'' of
                       None \<Rightarrow> path_mem s p | Some i \<Rightarrow> drop (Suc i) (path_mem s p))
      else path_mem s q)"
  by (auto simp: cork_path_set_basename_def Let_def cork_path_size_def split: option.splits)

lemma set_dirname_brk [simp]: "path_brk (cork_path_set_dirname p s) = path_brk s"
  by (simp add: cork_path_set_dirname_def Let_def split: option.splits)

lemma set_basename_brk [simp]: "path_brk (cork_path_set_basename p s) = path_brk s"
  by (simp add: cork_path_set_basename_def Let_def split: option.splits)

text \<open>
  C7.  For a path whose text contains a separator, the text left by \<^verbatim>\<open>cork_path_dirname\<close>
  in one clone and the text left by \<^verbatim>\<open>cork_path_basename\<close> in another clone of the same
  path, put together with one separator between them, are the text of the path.
\<close>

theorem cork_path_dirname_basename:
  assumes "CHR ''/'' \<in> set (path_mem s p)" and "p < path_brk s"
  shows "path_mem (snd (cork_path_basename p (snd (cork_path_dirname p s))))
           (fst (cork_path_dirname p s)) @ ''/'' @
         path_mem (snd (cork_path_basename p (snd (cork_path_dirname p s))))
           (fst (cork_path_basename p (snd (cork_path_dirname p s)))) = path_mem s p"
proof -
  obtain i where i: "strrchr (path_mem s p) CHR ''/'' = Some i"
    using assms(1) strrchr_None [of "path_mem s p" "CHR ''/''"] by (cases "strrchr (path_mem s p) CHR ''/''") auto
  define d where "d = fst (cork_path_dirname p s)"
  define s1 where "s1 = snd (cork_path_dirname p s)"
  define b where "b = fst (cork_path_basename p s1)"
  define s2 where "s2 = snd (cork_path_basename p s1)"
  from assms(2) have ne: "p \<noteq> path_brk s" by simp
  have d: "d = path_brk s"
    by (simp add: d_def cork_path_dirname_def cork_path_clone_eqs(1) [of p s, symmetric] split: prod.splits)
  have s1: "s1 = cork_path_set_dirname (path_brk s) (snd (cork_path_clone p s))"
    by (simp add: s1_def cork_path_dirname_def cork_path_clone_eqs(1) [of p s, symmetric] split: prod.splits)
  have brk1: "path_brk s1 = Suc (path_brk s)"
    by (simp add: s1 cork_path_clone_eqs)
  have m1p: "path_mem s1 p = path_mem s p"
    using ne by (simp add: s1 set_dirname_mem cork_path_clone_eqs(3) [OF ne])
  have m1d: "path_mem s1 d = take i (path_mem s p)"
    using ne i by (simp add: s1 d set_dirname_mem cork_path_clone_eqs(3) [OF ne])
  have ne1: "p \<noteq> path_brk s1" using assms(2) brk1 by simp
  have b: "b = path_brk s1"
    by (simp add: b_def cork_path_basename_def cork_path_clone_eqs(1) [of p s1, symmetric] split: prod.splits)
  have s2: "s2 = cork_path_set_basename (path_brk s1) (snd (cork_path_clone p s1))"
    by (simp add: s2_def cork_path_basename_def cork_path_clone_eqs(1) [of p s1, symmetric] split: prod.splits)
  have m2d: "path_mem s2 d = take i (path_mem s p)"
    using ne1 brk1 d m1d by (simp add: s2 set_basename_mem cork_path_clone_eqs(3) [OF ne1])
  have m2b: "path_mem s2 b = drop (Suc i) (path_mem s p)"
    using ne1 i m1p by (simp add: s2 b set_basename_mem cork_path_clone_eqs(3) [OF ne1])
  have "take i (path_mem s p) @ CHR ''/'' # drop (Suc i) (path_mem s p) = path_mem s p"
    using strrchr_Some [OF i] by simp
  then have "path_mem s2 d @ ''/'' @ path_mem s2 b = path_mem s p"
    by (simp add: m2d m2b)
  then show ?thesis by (simp add: d_def s1_def b_def s2_def)
qed

theorem cork_path_dirname_basename_witness:
  "CHR ''/'' \<in> set (path_mem path_demo 0) \<and> (0 :: addr) < path_brk path_demo \<and>
   path_mem (snd (cork_path_basename 0 (snd (cork_path_dirname 0 path_demo))))
     (fst (cork_path_dirname 0 path_demo)) @ ''/'' @
   path_mem (snd (cork_path_basename 0 (snd (cork_path_dirname 0 path_demo))))
     (fst (cork_path_basename 0 (snd (cork_path_dirname 0 path_demo)))) = ''usr/lib''"
proof -
  have h1: "CHR ''/'' \<in> set (path_mem path_demo 0)"
    by (simp add: path_demo_def)
  have h2: "(0 :: addr) < path_brk path_demo"
    by (simp add: path_demo_def)
  have m: "path_mem path_demo 0 = ''usr/lib''"
    by (simp add: path_demo_def)
  from cork_path_dirname_basename [OF h1 h2] h1 h2 m show ?thesis
    by simp
qed

lemma cork_path_dirname_eqs:
  "fst (cork_path_dirname p s) = path_brk s"
  "path_brk (snd (cork_path_dirname p s)) = Suc (path_brk s)"
  "path_mem (snd (cork_path_dirname p s)) q =
     (if q = path_brk s then
        (case strrchr (if p = path_brk s then [] else path_mem s p) CHR ''/'' of
           None \<Rightarrow> [] | Some i \<Rightarrow> take i (path_mem s p))
      else path_mem s q)"
  "file_mem (snd (cork_path_dirname p s)) = file_mem s"
  "file_brk (snd (cork_path_dirname p s)) = file_brk s"
  by (simp_all add: cork_path_dirname_def cork_path_set_dirname_def cork_path_clone_def
      cork_path_new_internal_def upd_path_def Let_def cork_buffer_copy_def
      cork_buffer_truncate_def cork_buffer_clear_def strrchr_lt split: option.splits)

lemma dirname_shorter:
  assumes "cork_path_size (fst (cork_path_dirname p s)) (snd (cork_path_dirname p s)) \<noteq> 0"
  shows "length (path_mem (snd (cork_path_dirname p s)) (fst (cork_path_dirname p s)))
           < length (path_mem s p)"
  using assms
  by (auto simp: cork_path_size_def cork_path_dirname_eqs split: option.splits if_splits
      dest: strrchr_lt)

section \<open>Properties of files and directories\<close>

text \<open>
  The defining equations of the two recursive functions are used where a proof asks for
  them, not by default.
\<close>

declare iterate_loop.simps [simp del]

declare cork_file_mkdir_one.simps [simp del]

subsection \<open>The state after a primitive step\<close>

lemma path_mem_upd_file [simp]: "path_mem (upd_file a f s) = path_mem s"
  by (simp add: upd_file_def)

lemma path_brk_upd_file [simp]: "path_brk (upd_file a f s) = path_brk s"
  by (simp add: upd_file_def)

lemma file_brk_upd_file [simp]: "file_brk (upd_file a f s) = file_brk s"
  by (simp add: upd_file_def)

lemma file_mem_upd_file [simp]:
  "file_mem (upd_file a f s) b = (if b = a then f (file_mem s a) else file_mem s b)"
  by (simp add: upd_file_def)

lemma upd_file_other [simp]:
  "cork_error (upd_file a f s) = cork_error s"
  "errno (upd_file a f s) = errno s"
  "world (upd_file a f s) = world s"
  by (simp_all add: upd_file_def)

lemma sys_callD:
  "sys_call prim s = (r, s1) \<Longrightarrow>
     path_mem s1 = path_mem s \<and> path_brk s1 = path_brk s \<and> file_mem s1 = file_mem s \<and>
     file_brk s1 = file_brk s \<and> cork_error s1 = cork_error s"
  by (auto simp: sys_call_def split: prod.splits)

lemma cork_file_stat_paths:
  "path_mem (snd (cork_file_stat os file s)) = path_mem s"
  "path_brk (snd (cork_file_stat os file s)) = path_brk s"
  "file_brk (snd (cork_file_stat os file s)) = file_brk s"
  "file_path (file_mem (snd (cork_file_stat os file s)) a) = file_path (file_mem s a)"
  by (auto simp: cork_file_stat_def cork_system_error_set_def Let_def
      dest!: sys_callD split: prod.splits)

subsection \<open>Running the model on the small file system\<close>

lemma demo_state_simps [simp]:
  "errno (demo_state fs p) = 0"
  "cork_error (demo_state fs p) = None"
  "path_mem (demo_state fs p) 0 = p"
  "path_brk (demo_state fs p) = 1"
  "file_mem (demo_state fs p) a =
     \<lparr>file_path = 0, st_mode = 0, type = CORK_FILE_MISSING, has_stat = False\<rparr>"
  "file_brk (demo_state fs p) = 1"
  "world (demo_state fs p) = fs"
  by (simp_all add: demo_state_def)

lemma demo_modes [simp]:
  "S_ISDIR 16877" "\<not> S_ISREG 16877" "S_ISREG 33188" "\<not> S_ISDIR 33188"
  by (simp_all add: S_ISDIR_def S_ISREG_def S_IFMT_def S_IFDIR_def S_IFREG_def)

lemmas model_defs =
  cork_file_iterate_directory_def sys_call_def cork_path_get_def
  cork_path_clone_def cork_path_new_internal_def cork_buffer_copy_def file_alloc_def
  cork_file_init_def cork_path_size_def Let_def iterate_loop.simps
  cork_file_stat_def cork_path_append_def cork_buffer_char_def cork_buffer_append_def
  cork_buffer_append_string_def cork_path_truncate_def cork_buffer_truncate_def
  cork_file_reset_def iterate_leave_def check_posix_def cork_file_done_def
  cork_path_free_def upd_path_def upd_file_def cork_system_error_set_def
  cork_system_error_set_explicit_def

lemmas demo_defs =
  demo_posix_def demo_opendir_def demo_closedir_def demo_stat_def demo_children_def
  demo_mkdir_def demo_rmdir_def demo_unlink_def

lemmas mkdir_defs =
  cork_file_mkdir_def cork_file_mkdir_one.simps cork_path_dirname_def cork_path_set_dirname_def
  cork_buffer_clear_def CORK_FILE_RECURSIVE_def CORK_FILE_PERMISSIVE_def S_IFDIR_def
  ENOENT_def ENOTDIR_def EEXIST_def

subsection \<open>Classification\<close>

text \<open>
  C4.  Classification of a File whose classification is not cached, by the outcome of the
  metadata query.  A failure because the entry or an ancestor directory does not exist
  (\<^verbatim>\<open>errno\<close> is \<^verbatim>\<open>ENOENT\<close> or \<^verbatim>\<open>ENOTDIR\<close>) is a success: the tag is Missing and it is
  memoized.  Any other failure is a failure with a SystemError wrapping \<^verbatim>\<open>errno\<close>, and
  the validity flag stays clear.  On success the tag follows from the type bits and is
  memoized.
\<close>

theorem cork_file_stat_uncached:
  assumes "\<not> has_stat (file_mem s file)"
    and "sys_call (posix_stat os (path_mem s (file_path (file_mem s file)))) s = ((rc, m), s1)"
  shows "(rc = - 1 \<and> (errno s1 = ENOENT \<or> errno s1 = ENOTDIR) \<longrightarrow>
            fst (cork_file_stat os file s) = 0 \<and>
            type (file_mem (snd (cork_file_stat os file s)) file) = CORK_FILE_MISSING \<and>
            has_stat (file_mem (snd (cork_file_stat os file s)) file) \<and>
            cork_error (snd (cork_file_stat os file s)) = cork_error s) \<and>
         (rc = - 1 \<and> errno s1 \<noteq> ENOENT \<and> errno s1 \<noteq> ENOTDIR \<longrightarrow>
            fst (cork_file_stat os file s) = - 1 \<and>
            cork_error (snd (cork_file_stat os file s)) = Some (SystemError (errno s1)) \<and>
            \<not> has_stat (file_mem (snd (cork_file_stat os file s)) file)) \<and>
         (rc \<noteq> - 1 \<longrightarrow>
            fst (cork_file_stat os file s) = 0 \<and>
            type (file_mem (snd (cork_file_stat os file s)) file) =
              (if S_ISREG m then CORK_FILE_REGULAR
               else if S_ISDIR m then CORK_FILE_DIRECTORY
               else if S_ISLNK m then CORK_FILE_SYMLINK
               else CORK_FILE_UNKNOWN) \<and>
            has_stat (file_mem (snd (cork_file_stat os file s)) file) \<and>
            cork_error (snd (cork_file_stat os file s)) = cork_error s)"
proof -
  note d = sys_callD [OF assms(2)]
  show ?thesis
    using assms d
    by (simp add: cork_file_stat_def cork_path_get_def cork_system_error_set_def Let_def)
qed

theorem cork_file_stat_uncached_witness:
  "fst (cork_file_stat demo_posix 0 (demo_state [] ''a/b'')) = 0 \<and>
   type (file_mem (snd (cork_file_stat demo_posix 0 (demo_state [] ''a/b''))) 0) =
     CORK_FILE_MISSING \<and>
   has_stat (file_mem (snd (cork_file_stat demo_posix 0 (demo_state [] ''a/b''))) 0) \<and>
   fst (cork_file_stat demo_stat_denied 0 (demo_state [] ''a/b'')) = - 1 \<and>
   cork_error (snd (cork_file_stat demo_stat_denied 0 (demo_state [] ''a/b''))) =
     Some (SystemError EACCES) \<and>
   \<not> has_stat (file_mem (snd (cork_file_stat demo_stat_denied 0 (demo_state [] ''a/b''))) 0) \<and>
   fst (cork_file_stat demo_posix 0 (demo_state [(''f'', 33188)] ''f'')) = 0 \<and>
   type (file_mem (snd (cork_file_stat demo_posix 0 (demo_state [(''f'', 33188)] ''f''))) 0) =
     CORK_FILE_REGULAR \<and>
   has_stat (file_mem (snd (cork_file_stat demo_posix 0 (demo_state [(''f'', 33188)] ''f''))) 0)"
proof -
  have h: "\<And>fs p. \<not> has_stat (file_mem (demo_state fs p) 0)"
    by simp
  have c1: "sys_call (posix_stat demo_posix (path_mem (demo_state [] ''a/b'')
        (file_path (file_mem (demo_state [] ''a/b'') 0)))) (demo_state [] ''a/b'') =
      ((- 1, 0), (demo_state [] ''a/b'')\<lparr>errno := ENOENT, world := []\<rparr>)"
    by (simp add: sys_call_def demo_posix_def demo_stat_def)
  have c2: "sys_call (posix_stat demo_stat_denied (path_mem (demo_state [] ''a/b'')
        (file_path (file_mem (demo_state [] ''a/b'') 0)))) (demo_state [] ''a/b'') =
      ((- 1, 0), (demo_state [] ''a/b'')\<lparr>errno := EACCES, world := []\<rparr>)"
    by (simp add: sys_call_def demo_stat_denied_def demo_posix_def demo_fail_def)
  have c3: "sys_call (posix_stat demo_posix (path_mem (demo_state [(''f'', 33188)] ''f'')
        (file_path (file_mem (demo_state [(''f'', 33188)] ''f'') 0))))
        (demo_state [(''f'', 33188)] ''f'') =
      ((0, 33188), (demo_state [(''f'', 33188)] ''f'')\<lparr>errno := 0, world := [(''f'', 33188)]\<rparr>)"
    by (simp add: sys_call_def demo_posix_def demo_stat_def)
  have m: "S_ISREG 33188"
    by (simp add: S_ISREG_def S_IFMT_def S_IFREG_def)
  from cork_file_stat_uncached [OF h c1] cork_file_stat_uncached [OF h c2]
    cork_file_stat_uncached [OF h c3] m
  show ?thesis
    by (simp add: ENOENT_def ENOTDIR_def EACCES_def)
qed

lemma stat_ok_has_stat:
  "cork_file_stat os f s = (0, s1) \<Longrightarrow> has_stat (file_mem s1 f)"
  by (auto simp: cork_file_stat_def Let_def split: if_splits prod.splits)

lemma stat_cached: "has_stat (file_mem s f) \<Longrightarrow> cork_file_stat os f s = (0, s)"
  by (simp add: cork_file_stat_def)

subsection \<open>The directory walker\<close>

lemma touch_refl [simp]: "touch cp cf t t"
  by (simp add: touch_def)

lemma touch_trans: "touch cp cf t t1 \<Longrightarrow> touch cp cf t1 t2 \<Longrightarrow> touch cp cf t t2"
  by (simp add: touch_def)

lemma touch_sys_call: "sys_call prim t = (r, t1) \<Longrightarrow> touch cp cf t t1"
  by (auto simp: touch_def dest!: sys_callD)

lemma touch_errno [simp]: "touch cp cf t (t\<lparr>errno := e\<rparr>)"
  by (simp add: touch_def)

lemma touch_error_set [simp]: "touch cp cf t (cork_system_error_set t)"
  by (simp add: touch_def cork_system_error_set_def)

lemma touch_readdir: "readdir dir t = ((r, dir1), t1) \<Longrightarrow> touch cp cf t t1"
  by (induction dir t rule: readdir.induct) auto

lemma touch_check_posix: "check_posix (sys_call prim t) = (r1, t1) \<Longrightarrow> touch cp cf t t1"
  by (auto simp: check_posix_def touch_def cork_system_error_set_def
      split: if_splits prod.splits dest!: sys_callD)

lemma touch_leave: "iterate_leave os cf dir rc t = (r, t1) \<Longrightarrow> touch cp cf t t1"
  by (auto simp: iterate_leave_def cork_file_done_def cork_path_free_def
      split: prod.splits if_splits dest: touch_check_posix)

lemma touch_append [simp]: "touch cp cf t (cork_path_append cp m t)"
  by (simp add: touch_def cork_path_append_def Let_def split: option.splits list.splits)

lemma touch_truncate [simp]: "touch cp cf t (cork_path_truncate cp n t)"
  by (simp add: touch_def cork_path_truncate_def)

lemma touch_reset [simp]: "touch cp cf t (cork_file_reset cf t)"
  by (simp add: touch_def cork_file_reset_def)

lemma touch_stat: "cork_file_stat os cf t = (rc, t1) \<Longrightarrow> touch cp cf t t1"
  by (auto simp: cork_file_stat_def Let_def touch_def cork_system_error_set_def
      split: if_splits prod.splits dest!: sys_callD)

lemma iterate_loop_invariant:
  assumes it: "\<And>n t rc t'. iterator cf n t = Some (rc, t') \<Longrightarrow> P t \<Longrightarrow> P t'"
    and wk: "\<And>t t'. P t \<Longrightarrow> touch cp cf t t' \<Longrightarrow> P t'"
  shows "iterate_loop os iterator cp cf sz dir s = Some (rc, s') \<Longrightarrow> P s \<Longrightarrow> P s'"
  using assms
proof (induction os iterator cp cf sz dir s rule: iterate_loop.induct)
  case (1 os iterator cp cf sz dir s)
  note run = "1.prems"(1) and P = "1.prems"(2)
  note it = "1.prems"(3) and wk = "1.prems"(4)
  obtain r dir1 s1 where rd: "readdir dir s = ((r, dir1), s1)"
    by (metis prod.exhaust)
  have P1: "P s1" using wk [OF P touch_readdir [OF rd]] .
  note eq = iterate_loop.simps [of os iterator cp cf sz dir s]
  show ?case
  proof (cases r)
    case None
    with run rd have "Some (rc, s') = Some (iterate_leave os cf dir1 (- 1) (cork_system_error_set s1))
        \<or> Some (rc, s') = Some (iterate_leave os cf dir1 0 s1)"
      by (simp add: eq split: if_splits)
    then obtain rc0 t where lv: "iterate_leave os cf dir1 rc0 t = (rc, s')" and t: "touch cp cf s1 t"
      by (metis option.inject touch_error_set touch_refl)
    from wk [OF wk [OF P1 t] touch_leave [OF lv]] show ?thesis .
  next
    case (Some d_name)
    show ?thesis
    proof (cases "d_name = ''.'' \<or> d_name = ''..''")
      case True
      with run rd Some have "iterate_loop os iterator cp cf sz dir1 s1 = Some (rc, s')"
        by (auto simp: eq)
      from "1.IH"(1) [OF rd [symmetric] refl Some True this P1 it wk] show ?thesis .
    next
      case False
      obtain rc1 s2 where st: "cork_file_stat os cf (cork_path_append cp (Some d_name) s1) = (rc1, s2)"
        by (metis prod.exhaust)
      have P2: "P s2"
        using wk [OF wk [OF P1 touch_append] touch_stat [OF st]] .
      show ?thesis
      proof (cases "rc1 \<noteq> 0")
        case True
        with run rd Some False st have "iterate_leave os cf dir1 (- 1) s2 = (rc, s')"
          by (simp add: eq)
        from wk [OF P2 touch_leave [OF this]] show ?thesis .
      next
        case rc1: False
        from run rd Some False st rc1 obtain rc2 s3 where vis: "iterator cf d_name s2 = Some (rc2, s3)"
          by (cases "iterator cf d_name s2") (auto simp: eq)
        have P3: "P s3" using it [OF vis P2] .
        show ?thesis
        proof (cases "rc2 \<noteq> 0")
          case True
          with run rd Some False st rc1 vis have "iterate_leave os cf dir1 (- 1) s3 = (rc, s')"
            by (simp add: eq)
          from wk [OF P3 touch_leave [OF this]] show ?thesis .
        next
          case rc2: False
          let ?s4 = "(cork_file_reset cf (cork_path_truncate cp sz s3))\<lparr>errno := 0\<rparr>"
          have P4: "P ?s4"
            using wk [OF wk [OF wk [OF P3 touch_truncate] touch_reset] touch_errno] .
          from run rd Some False st rc1 vis rc2
          have "iterate_loop os iterator cp cf sz dir1 ?s4 = Some (rc, s')"
            by (simp add: eq)
          from "1.IH"(2) [OF rd [symmetric] refl Some False st [symmetric] rc1 vis refl rc2
            this P4 it wk]
          show ?thesis .
        qed
      qed
    qed
  qed
qed

lemma iterate_directory_invariant:
  assumes run: "cork_file_iterate_directory os file iterator s = Some (rc, s')"
    and it: "\<And>n t rc t'. iterator (file_brk s) n t = Some (rc, t') \<Longrightarrow> P t \<Longrightarrow> P t'"
    and wk: "\<And>t t'. P t \<Longrightarrow> touch (path_brk s) (file_brk s) t t' \<Longrightarrow> P t'"
    and start: "\<And>t. grow (path_brk s) (file_brk s) s t \<Longrightarrow> path_brk t = Suc (path_brk s) \<Longrightarrow>
      file_brk t = Suc (file_brk s) \<Longrightarrow> P t"
    and fail: "\<And>t. touch (path_brk s) (file_brk s) s t \<Longrightarrow> Q t"
    and fin: "\<And>t. P t \<Longrightarrow> Q t"
  shows "Q s'"
proof -
  obtain r s1 where od:
    "sys_call (posix_opendir os (cork_path_get (file_path (file_mem s file)) s)) s = (r, s1)"
    by (metis prod.exhaust)
  note d = sys_callD [OF od]
  show ?thesis
  proof (cases r)
    case None
    with run od have "s' = cork_system_error_set s1"
      by (simp add: cork_file_iterate_directory_def)
    with d have "touch (path_brk s) (file_brk s) s s'"
      by (simp add: touch_def cork_system_error_set_def)
    then show ?thesis by (rule fail)
  next
    case (Some dir)
    define s2 where "s2 = snd (cork_path_clone (file_path (file_mem s1 file)) s1)"
    define s3 where "s3 = cork_file_init (file_brk s) (path_brk s) (s2\<lparr>file_brk := Suc (file_brk s2)\<rparr>)"
    define t0 where "t0 = s3\<lparr>errno := 0\<rparr>"
    have s2: "cork_path_clone (file_path (file_mem s1 file)) s1 = (path_brk s, s2)"
      using d by (simp add: s2_def cork_path_clone_def cork_path_new_internal_def)
    have s2f: "file_brk s2 = file_brk s" "file_mem s2 = file_mem s"
      "path_brk s2 = Suc (path_brk s)" "\<And>q. q \<noteq> path_brk s \<Longrightarrow> path_mem s2 q = path_mem s q"
      using d by (simp_all add: s2_def cork_path_clone_def cork_path_new_internal_def upd_path_def)
    from run od Some s2 s2f
    have loop: "iterate_loop os iterator (path_brk s) (file_brk s)
        (cork_path_size (path_brk s) s3) dir t0 = Some (rc, s')"
      by (simp add: cork_file_iterate_directory_def file_alloc_def t0_def s3_def Let_def)
    have "grow (path_brk s) (file_brk s) s t0" "path_brk t0 = Suc (path_brk s)"
      "file_brk t0 = Suc (file_brk s)"
      using s2f by (simp_all add: grow_def t0_def s3_def cork_file_init_def)
    then have "P t0" by (rule start)
    from iterate_loop_invariant [of iterator "file_brk s" P "path_brk s", OF it wk loop this]
    show ?thesis by (rule fin)
  qed
qed

text \<open>
  The walk returns whenever the visitor does.  The loop, equation by equation: at the end
  of the listing, at a failing read, and at a skipped entry, after which \<^verbatim>\<open>errno\<close> is
  whatever the read left.
\<close>

lemma iterate_loop_returns:
  assumes "\<And>child name t. iterator child name t \<noteq> None"
  shows "iterate_loop os iterator cp cf sz dir s \<noteq> None"
  using assms
proof (induction os iterator cp cf sz dir s rule: iterate_loop.induct)
  case (1 os iterator cp cf sz dir s)
  obtain r dir1 s1 where rd: "readdir dir s = ((r, dir1), s1)"
    by (metis prod.exhaust)
  note eq = iterate_loop.simps [of os iterator cp cf sz dir s]
  show ?case
  proof (cases r)
    case None
    with rd show ?thesis by (simp add: eq)
  next
    case (Some d_name)
    show ?thesis
    proof (cases "d_name = ''.'' \<or> d_name = ''..''")
      case True
      from "1.IH"(1) [OF rd [symmetric] refl Some True "1.prems"] rd Some True
      show ?thesis by (auto simp: eq)
    next
      case False
      obtain rc1 s2 where st:
        "cork_file_stat os cf (cork_path_append cp (Some d_name) s1) = (rc1, s2)"
        by (metis prod.exhaust)
      obtain rc2 s3 where vis: "iterator cf d_name s2 = Some (rc2, s3)"
        using "1.prems" [of cf d_name s2] by (cases "iterator cf d_name s2") auto
      show ?thesis
      proof (cases "rc1 \<noteq> 0 \<or> rc2 \<noteq> 0")
        case True
        with rd Some False st vis show ?thesis by (auto simp: eq)
      next
        case ok: False
        then have rc: "\<not> rc1 \<noteq> 0" "\<not> rc2 \<noteq> 0" by simp_all
        from "1.IH"(2) [OF rd [symmetric] refl Some False st [symmetric] rc(1) vis refl rc(2)
          "1.prems"] rd Some False st vis ok
        show ?thesis by (simp add: eq)
      qed
    qed
  qed
qed

lemma cork_file_iterate_directory_returns:
  assumes "\<And>child name t. iterator child name t \<noteq> None"
  shows "cork_file_iterate_directory os file iterator s \<noteq> None"
  using iterate_loop_returns [OF assms]
  by (simp add: cork_file_iterate_directory_def Let_def split: prod.splits option.splits)

lemma iterate_loop_end:
  "iterate_loop os iterator cp cf sz [] s =
     (if errno s \<noteq> 0 then Some (iterate_leave os cf [] (- 1) (cork_system_error_set s))
      else Some (iterate_leave os cf [] 0 s))"
  by (simp add: iterate_loop.simps)

lemma iterate_loop_read_error:
  "e \<noteq> 0 \<Longrightarrow>
   iterate_loop os iterator cp cf sz (ReadError e # dir) s =
     Some (iterate_leave os cf dir (- 1) (cork_system_error_set (s\<lparr>errno := e\<rparr>)))"
  by (simp add: iterate_loop.simps)

lemma iterate_loop_skip:
  "d_name = ''.'' \<or> d_name = ''..'' \<Longrightarrow>
   iterate_loop os iterator cp cf sz (Dirent d_name eff # dir) s =
     iterate_loop os iterator cp cf sz dir (case eff of None \<Rightarrow> s | Some e \<Rightarrow> s\<lparr>errno := e\<rparr>)"
  by (cases eff) (auto simp: iterate_loop.simps)

lemma iterate_loop_stale_errno:
  "e \<noteq> 0 \<Longrightarrow>
   iterate_loop os iterator cp cf sz [Dirent ''.'' (Some e)] s =
     Some (iterate_leave os cf [] (- 1) (cork_system_error_set (s\<lparr>errno := e\<rparr>)))"
  by (simp add: iterate_loop_skip iterate_loop_end)

text \<open>
  C10.  Whatever \<^verbatim>\<open>cork_file_iterate_directory\<close> returns, success or error, the
  directory File it was given (its path pointer, cached tag and validity flag) and the
  text of its path are as they were before the call.  The File and its path are allocated
  objects.  Of the visitor only this is asked: handed a child other than the directory
  File, in a state where the directory File and its path are allocated, it leaves both
  allocated and as they are.  In a state where they are not allocated the visitor may do
  anything; \<^verbatim>\<open>cork_file_remove_iterator\<close>, which allocates, is such a visitor
  (\<open>cork_file_remove_iterator_keeps\<close> below).
\<close>

theorem cork_file_iterate_directory_frame:
  assumes "file < file_brk s" and "file_path (file_mem s file) < path_brk s"
    and "\<And>child name t rc t'.
           child \<noteq> file \<Longrightarrow> file < file_brk t \<Longrightarrow> file_path (file_mem s file) < path_brk t \<Longrightarrow>
           iterator child name t = Some (rc, t') \<Longrightarrow>
           file < file_brk t' \<and> file_path (file_mem s file) < path_brk t' \<and>
           file_mem t' file = file_mem t file \<and>
           path_mem t' (file_path (file_mem s file)) = path_mem t (file_path (file_mem s file))"
    and "cork_file_iterate_directory os file iterator s = Some (rc, s')"
  shows "file_mem s' file = file_mem s file \<and>
         path_mem s' (file_path (file_mem s file)) = path_mem s (file_path (file_mem s file))"
proof -
  let ?p = "file_path (file_mem s file)"
  let ?P = "\<lambda>t. file < file_brk t \<and> ?p < path_brk t \<and>
    file_mem t file = file_mem s file \<and> path_mem t ?p = path_mem s ?p"
  let ?Q = "\<lambda>t. file_mem t file = file_mem s file \<and> path_mem t ?p = path_mem s ?p"
  have ne: "file_brk s \<noteq> file" "?p \<noteq> path_brk s" using assms(1,2) by simp_all
  show ?thesis
  proof (rule iterate_directory_invariant [where P = ?P and Q = ?Q, OF assms(4)])
    fix n t rc t'
    assume v: "iterator (file_brk s) n t = Some (rc, t')" and P: "?P t"
    from assms(3) [OF ne(1) _ _ v] P show "?P t'" by simp
  next
    fix t t'
    assume "?P t" and "touch (path_brk s) (file_brk s) t t'"
    with ne show "?P t'" by (simp add: touch_def)
  next
    fix t
    assume "grow (path_brk s) (file_brk s) s t" "path_brk t = Suc (path_brk s)"
      "file_brk t = Suc (file_brk s)"
    with ne assms(1,2) show "?P t" by (simp add: grow_def)
  next
    fix t
    assume "touch (path_brk s) (file_brk s) s t"
    with ne show "?Q t" by (simp add: touch_def)
  qed simp
qed

text \<open>
  C1, at a failing input.  The directory \<^verbatim>\<open>d\<close> lists \<^verbatim>\<open>.\<close> and \<^verbatim>\<open>..\<close>, and the successful
  read of \<^verbatim>\<open>.\<close> leaves \<^verbatim>\<open>errno\<close> non-zero.  The entry is skipped by \<^verbatim>\<open>continue\<close>, which
  also skips the reset of \<^verbatim>\<open>errno\<close> at the end of the loop body, so the stale value is
  still there when the listing ends: the walk fails with a SystemError although no read
  failed.  When the same happens at an entry that is visited, \<^verbatim>\<open>errno\<close> is reset and the
  walk succeeds.
\<close>

theorem cork_file_iterate_directory_skips_reset:
  "outcome (cork_file_iterate_directory demo_dots_errno 0 (classify_visitor demo_dots_errno)
      (demo_state [(''d'', 16877)] ''d'')) =
     Some (- 1, Some (SystemError ENOSYS), [(''d'', 16877)]) \<and>
   outcome (cork_file_iterate_directory demo_entry_errno 0 (classify_visitor demo_entry_errno)
      (demo_state [(''d/a.txt'', 33188), (''d'', 16877)] ''d'')) =
     Some (0, None, [(''d/a.txt'', 33188), (''d'', 16877)])"
  by (simp add: outcome_def model_defs demo_defs demo_dots_errno_def demo_entry_errno_def
      classify_visitor_def ENOSYS_def)

subsection \<open>Creating and removing\<close>

lemma kept_refl [simp]: "kept s s"
  by (simp add: kept_def)

lemma kept_trans: "kept s t \<Longrightarrow> kept t u \<Longrightarrow> kept s u"
  by (simp add: kept_def)

lemma touch_kept: "touch cp cf s t \<Longrightarrow> path_brk s \<le> cp \<Longrightarrow> file_brk s \<le> cf \<Longrightarrow> kept s t"
  by (simp add: touch_def kept_def)

lemma grow_kept: "grow cp cf s t \<Longrightarrow> path_brk s \<le> cp \<Longrightarrow> file_brk s \<le> cf \<Longrightarrow> kept s t"
  by (simp add: grow_def kept_def)

lemma frame_kept: "frame f s t \<Longrightarrow> file_brk s \<le> f \<Longrightarrow> kept s t"
  by (simp add: frame_def kept_def)

lemma kept_frame: "kept s t \<Longrightarrow> frame f s t"
  by (simp add: frame_def kept_def)

lemma frame_then_kept: "frame f s t \<Longrightarrow> kept t u \<Longrightarrow> frame f s u"
  by (simp add: frame_def kept_def)

lemma touch_frame: "touch cp f s s' \<Longrightarrow> path_brk s \<le> cp \<Longrightarrow> frame f s s'"
  by (simp add: touch_def frame_def)

lemma mkdir_one_frame:
  "cork_file_mkdir_one os f mode flags s = (rc, s') \<Longrightarrow> f < file_brk s \<Longrightarrow>
   frame f s s' \<and> file_mem s' f = file_mem (snd (cork_file_stat os f s)) f"
proof (induction "length (path_mem s (file_path (file_mem s f)))"
    arbitrary: f flags s rc s' rule: less_induct)
  case less
  note run = less.prems(1) and valid = less.prems(2)
  obtain rc0 s1 where st: "cork_file_stat os f s = (rc0, s1)"
    by (metis prod.exhaust)
  note eq = cork_file_mkdir_one.simps [of os f mode flags s]
  have t1: "touch (path_brk s) f s s1" by (rule touch_stat [OF st])
  then have b1: "path_brk s1 = path_brk s" "file_brk s1 = file_brk s" "path_mem s1 = path_mem s"
    using cork_file_stat_paths(1) [of os f s] st by (simp_all add: touch_def)
  have fp1: "file_path (file_mem s1 f) = file_path (file_mem s f)"
    using cork_file_stat_paths(4) [of os f s f] st by simp
  have f1: "frame f s s1" using t1 by (rule touch_frame) simp
  have goal_kept: "frame f s t \<and> file_mem t f = file_mem (snd (cork_file_stat os f s)) f"
    if "kept s1 t" for t
    using frame_then_kept [OF f1 that] that valid st b1 by (simp add: kept_def)
  have leaf_kept: "kept t t'"
    if "check_posix (sys_call prim t) = (r, t')" for prim r and t t' :: "'a cstate"
    using touch_check_posix [OF that, of "path_brk t" "file_brk t"] by (rule touch_kept) simp_all
  let ?leaf = "\<lambda>t. check_posix
    (sys_call (posix_mkdir os (cork_path_get (file_path (file_mem t f)) t) mode) t)"
  show ?case
  proof (cases "rc0 \<noteq> 0 \<or> type (file_mem s1 f) \<noteq> CORK_FILE_MISSING")
    case True
    with run st have "s' = s1 \<or> s' = cork_system_error_set_explicit EEXIST s1"
      by (auto simp: eq split: if_splits)
    then have "kept s1 s'"
      by (auto simp: kept_def cork_system_error_set_explicit_def)
    then show ?thesis by (rule goal_kept)
  next
    case False
    then have ok: "rc0 = 0" "type (file_mem s1 f) = CORK_FILE_MISSING" by simp_all
    show ?thesis
    proof (cases "flags AND CORK_FILE_RECURSIVE \<noteq> 0")
      case nrec: False
      with run st ok have "?leaf s1 = (rc, s')" by (simp add: eq)
      then have "kept s1 s'" by (rule leaf_kept)
      then show ?thesis by (rule goal_kept)
    next
      case isrec: True
      define parent where "parent = fst (cork_path_dirname (file_path (file_mem s1 f)) s1)"
      define s2 where "s2 = snd (cork_path_dirname (file_path (file_mem s1 f)) s1)"
      have dn: "cork_path_dirname (file_path (file_mem s1 f)) s1 = (parent, s2)"
        by (simp add: parent_def s2_def)
      have p: "parent = path_brk s" by (simp add: parent_def cork_path_dirname_eqs b1)
      have s2: "path_brk s2 = Suc (path_brk s)" "file_brk s2 = file_brk s"
        "file_mem s2 = file_mem s1"
        "\<And>q. q \<noteq> path_brk s \<Longrightarrow> path_mem s2 q = path_mem s q"
        by (simp_all add: s2_def cork_path_dirname_eqs b1)
      have k2: "kept s1 s2"
        using s2 b1 by (simp add: kept_def)
      show ?thesis
      proof (cases "cork_path_size parent s2 = 0")
        case True
        with run st ok isrec dn have "?leaf s2 = (rc, s')"
          by (simp add: eq cork_path_free_def)
        then have "kept s2 s'" by (rule leaf_kept)
        with k2 have "kept s1 s'" by (rule kept_trans)
        then show ?thesis by (rule goal_kept)
      next
        case False
        define pf where "pf = file_brk s2"
        define s3 where "s3 = cork_file_init pf parent (s2\<lparr>file_brk := Suc (file_brk s2)\<rparr>)"
        define rc1 where "rc1 = fst (cork_file_mkdir_one os pf mode (flags OR CORK_FILE_PERMISSIVE) s3)"
        define s4 where "s4 = snd (cork_file_mkdir_one os pf mode (flags OR CORK_FILE_PERMISSIVE) s3)"
        have rec: "cork_file_mkdir_one os pf mode (flags OR CORK_FILE_PERMISSIVE) s3 = (rc1, s4)"
          by (simp add: rc1_def s4_def)
        have s3: "path_brk s3 = path_brk s2" "file_brk s3 = Suc (file_brk s2)"
          "path_mem s3 = path_mem s2" "\<And>a. a \<noteq> pf \<Longrightarrow> file_mem s3 a = file_mem s2 a"
          "file_path (file_mem s3 pf) = parent"
          by (simp_all add: s3_def cork_file_init_def)
        have "length (path_mem s2 parent) < length (path_mem s1 (file_path (file_mem s1 f)))"
          using False unfolding parent_def s2_def by (rule dirname_shorter)
        then have shorter: "length (path_mem s3 (file_path (file_mem s3 pf)))
            < length (path_mem s (file_path (file_mem s f)))"
          by (simp add: s3 b1 fp1)
        have "pf < file_brk s3" by (simp add: s3 pf_def)
        from less.hyps [OF shorter rec this] have f4: "frame pf s3 s4" by simp
        have k4: "kept s2 s4"
          using f4 s3 by (auto simp: frame_def kept_def pf_def)
        have res: "(rc, s') = (if rc1 \<noteq> 0 then (- 1, s4) else ?leaf s4)"
          using run st ok isrec dn False rec
          by (simp add: eq file_alloc_def pf_def s3_def cork_file_done_def cork_path_free_def)
        have "kept s4 s'"
        proof (cases "rc1 \<noteq> 0")
          case True
          with res show ?thesis by simp
        next
          case False
          with res have "?leaf s4 = (rc, s')" by simp
          then show ?thesis by (rule leaf_kept)
        qed
        with k2 k4 have "kept s1 s'" by (blast intro: kept_trans)
        then show ?thesis by (rule goal_kept)
      qed
    qed
  qed
qed

text \<open>
  \<^verbatim>\<open>cork_file_remove\<close>, once it has classified its File, writes to no object that was
  allocated before: the walk it makes works on a path and a File of its own.  This holds
  whether or not the File it is given is an allocated object.
\<close>

lemma remove_kept:
  "cork_file_remove depth os f flags s = Some (rc, s') \<Longrightarrow>
   kept (snd (cork_file_stat os f s)) s'"
proof (induction depth arbitrary: f s rc s')
  case 0
  then show ?case by simp
next
  case (Suc depth)
  note run = Suc.prems(1)
  obtain rc0 s1 where st: "cork_file_stat os f s = (rc0, s1)"
    by (metis prod.exhaust)
  have leaf_kept: "kept t t'"
    if "check_posix (sys_call prim t) = (r, t')" for prim r and t t' :: "'a cstate"
    using touch_check_posix [OF that, of "path_brk t" "file_brk t"] by (rule touch_kept) simp_all
  let ?rmdir = "\<lambda>t. check_posix
    (sys_call (posix_rmdir os (cork_path_get (file_path (file_mem t f)) t)) t)"
  have "kept s1 s'"
  proof (cases "rc0 \<noteq> 0 \<or> type (file_mem s1 f) = CORK_FILE_MISSING")
    case True
    with run st have "s' = s1 \<or> s' = cork_system_error_set_explicit ENOENT s1"
      by (auto split: if_splits)
    then show ?thesis
      by (auto simp: kept_def cork_system_error_set_explicit_def)
  next
    case False
    then have ok: "rc0 = 0" "type (file_mem s1 f) \<noteq> CORK_FILE_MISSING" by simp_all
    show ?thesis
    proof (cases "type (file_mem s1 f) = CORK_FILE_DIRECTORY")
      case notdir: False
      obtain rc1 s2 where ul:
        "sys_call (posix_unlink os (cork_path_get (file_path (file_mem s1 f)) s1)) s1 = (rc1, s2)"
        by (metis prod.exhaust)
      with run st ok notdir have "s' = s2" by (auto split: if_splits)
      with touch_sys_call [OF ul, of "path_brk s1" "file_brk s1"] show ?thesis
        by (auto intro: touch_kept)
    next
      case isdir: True
      define walk where "walk =
        (if flags AND CORK_FILE_RECURSIVE \<noteq> 0 then
           cork_file_iterate_directory os f
             (cork_file_remove_iterator (cork_file_remove depth os) flags) s1
         else Some (0, s1))"
      from run st ok isdir obtain rc1 s2 where w: "walk = Some (rc1, s2)"
        and res: "(rc, s') = (if rc1 \<noteq> 0 then (- 1, s2) else ?rmdir s2)"
        by (cases walk) (auto simp: walk_def split: if_splits)
      have k2: "kept s1 s2"
      proof (cases "flags AND CORK_FILE_RECURSIVE \<noteq> 0")
        case False
        with w show ?thesis by (simp add: walk_def)
      next
        case True
        with w have it: "cork_file_iterate_directory os f
             (cork_file_remove_iterator (cork_file_remove depth os) flags) s1 = Some (rc1, s2)"
          by (simp add: walk_def)
        let ?P = "\<lambda>t. kept s1 t \<and> path_brk s1 < path_brk t \<and> file_brk s1 < file_brk t"
        show ?thesis
        proof (rule iterate_directory_invariant [where P = ?P and Q = "kept s1", OF it])
          fix n t rc t'
          assume v: "cork_file_remove_iterator (cork_file_remove depth os) flags (file_brk s1) n t
              = Some (rc, t')" and P: "?P t"
          then have "cork_file_remove depth os (file_brk s1) flags t = Some (rc, t')"
            by (simp add: cork_file_remove_iterator_def)
          from Suc.IH [OF this] have k: "kept (snd (cork_file_stat os (file_brk s1) t)) t'" .
          have "touch (path_brk s1) (file_brk s1) t (snd (cork_file_stat os (file_brk s1) t))"
            by (rule touch_stat [of os _ t "fst (cork_file_stat os (file_brk s1) t)"]) simp
          with k P show "?P t'" by (auto simp: touch_def kept_def)
        next
          fix t t'
          assume "?P t" and "touch (path_brk s1) (file_brk s1) t t'"
          then show "?P t'" by (auto simp: touch_def kept_def)
        next
          fix t
          assume "grow (path_brk s1) (file_brk s1) s1 t" "path_brk t = Suc (path_brk s1)"
            "file_brk t = Suc (file_brk s1)"
          then show "?P t" by (auto simp: grow_def kept_def)
        next
          fix t
          assume "touch (path_brk s1) (file_brk s1) s1 t"
          then show "kept s1 t" by (rule touch_kept) simp_all
        qed simp
      qed
      have "kept s2 s'"
      proof (cases "rc1 \<noteq> 0")
        case True
        with res show ?thesis by simp
      next
        case False
        with res have "?rmdir s2 = (rc, s')" by simp
        then show ?thesis by (rule leaf_kept)
      qed
      with k2 show ?thesis by (rule kept_trans)
    qed
  qed
  with st show ?case by simp
qed

lemma remove_frame:
  "cork_file_remove depth os f flags s = Some (rc, s') \<Longrightarrow> f < file_brk s \<Longrightarrow>
   frame f s s' \<and> file_mem s' f = file_mem (snd (cork_file_stat os f s)) f"
proof -
  assume run: "cork_file_remove depth os f flags s = Some (rc, s')" and valid: "f < file_brk s"
  let ?s1 = "snd (cork_file_stat os f s)"
  have t1: "touch (path_brk s) f s ?s1"
    by (rule touch_stat [of os _ s "fst (cork_file_stat os f s)"]) simp
  then have f1: "frame f s ?s1" by (rule touch_frame) simp
  from run have k: "kept ?s1 s'" by (rule remove_kept)
  from frame_then_kept [OF f1 k] k valid t1 show ?thesis
    by (simp add: kept_def touch_def)
qed

text \<open>
  The one walk that \<^verbatim>\<open>files.c\<close> itself makes is the one of \<^verbatim>\<open>cork_file_remove\<close> (line
  478), whose visitor, \<^verbatim>\<open>cork_file_remove_iterator\<close>, removes the child it is handed and
  so classifies it, walks it in turn and allocates.  For every operating system, every
  depth and all flags, that visitor leaves an allocated File other than the child, and any
  allocated path, allocated and as they are.  On the small file system, the walk of \<^verbatim>\<open>d\<close>
  with this visitor removes the regular file and the subdirectory of \<^verbatim>\<open>d\<close> and leaves the
  directory File and its path as they were.
\<close>

lemma cork_file_remove_iterator_keeps:
  assumes "cork_file_remove_iterator (cork_file_remove depth os) flags child name t =
      Some (rc, t')"
    and "child \<noteq> f" and "f < file_brk t" and "p < path_brk t"
  shows "f < file_brk t' \<and> p < path_brk t' \<and>
         file_mem t' f = file_mem t f \<and> path_mem t' p = path_mem t p"
proof -
  let ?t1 = "snd (cork_file_stat os child t)"
  from assms(1) have "cork_file_remove depth os child flags t = Some (rc, t')"
    by (simp add: cork_file_remove_iterator_def)
  then have k: "kept ?t1 t'" by (rule remove_kept)
  have "touch (path_brk t) child t ?t1"
    by (rule touch_stat [of os _ t "fst (cork_file_stat os child t)"]) simp
  with k assms(2-4) show ?thesis
    by (auto simp: kept_def touch_def)
qed

lemma demo_walk_remove:
  "outcome (cork_file_iterate_directory demo_posix 0
      (cork_file_remove_iterator (cork_file_remove 2 demo_posix) CORK_FILE_RECURSIVE)
      (demo_state demo_tree ''d'')) = Some (0, None, [(''d'', 16877)])"
  by (simp add: outcome_def model_defs demo_defs demo_tree_def cork_file_remove_iterator_def
      numeral_2_eq_2 CORK_FILE_RECURSIVE_def)

theorem cork_file_iterate_directory_frame_witness:
  "(0 :: addr) < file_brk (demo_state demo_tree ''d'') \<and>
   file_path (file_mem (demo_state demo_tree ''d'') 0) < path_brk (demo_state demo_tree ''d'') \<and>
   outcome (cork_file_iterate_directory demo_posix 0
      (cork_file_remove_iterator (cork_file_remove 2 demo_posix) CORK_FILE_RECURSIVE)
      (demo_state demo_tree ''d'')) = Some (0, None, [(''d'', 16877)]) \<and>
   file_mem (snd (the (cork_file_iterate_directory demo_posix 0
      (cork_file_remove_iterator (cork_file_remove 2 demo_posix) CORK_FILE_RECURSIVE)
      (demo_state demo_tree ''d'')))) 0 =
     \<lparr>file_path = 0, st_mode = 0, type = CORK_FILE_MISSING, has_stat = False\<rparr> \<and>
   path_mem (snd (the (cork_file_iterate_directory demo_posix 0
      (cork_file_remove_iterator (cork_file_remove 2 demo_posix) CORK_FILE_RECURSIVE)
      (demo_state demo_tree ''d'')))) 0 = ''d''"
proof -
  let ?s = "demo_state demo_tree ''d''"
  let ?rm = "cork_file_remove_iterator (cork_file_remove 2 demo_posix) CORK_FILE_RECURSIVE"
  let ?run = "cork_file_iterate_directory demo_posix 0 ?rm ?s"
  have v: "(0 :: addr) < file_brk ?s" "file_path (file_mem ?s 0) < path_brk ?s"
    by simp_all
  have vis: "0 < file_brk t' \<and> file_path (file_mem ?s 0) < path_brk t' \<and>
      file_mem t' 0 = file_mem t 0 \<and>
      path_mem t' (file_path (file_mem ?s 0)) = path_mem t (file_path (file_mem ?s 0))"
    if "child \<noteq> 0" "0 < file_brk t" "file_path (file_mem ?s 0) < path_brk t"
      "?rm child name t = Some (rc, t')"
    for child name rc and t t' :: "demo_fs cstate"
    using cork_file_remove_iterator_keeps [OF that(4,1,2,3)] .
  from demo_walk_remove obtain s' where run: "?run = Some (0, s')"
    by (cases ?run) (auto simp: outcome_def)
  from cork_file_iterate_directory_frame [OF v vis run] v run demo_walk_remove
  show ?thesis by simp
qed

lemma mkdir_ok_stat_ok:
  "cork_file_mkdir_one os f mode flags s = (0, s') \<Longrightarrow> fst (cork_file_stat os f s) = 0"
  by (subst (asm) cork_file_mkdir_one.simps) (auto split: prod.splits if_splits)

lemma remove_ok_stat_ok:
  "cork_file_remove depth os f flags s = Some (0, s') \<Longrightarrow> fst (cork_file_stat os f s) = 0"
  by (cases depth) (auto split: prod.splits if_splits)

text \<open>
  C3, as the code has it.  Neither \<^verbatim>\<open>cork_file_mkdir\<close> nor \<^verbatim>\<open>cork_file_remove\<close> clears
  the validity flag.  When either succeeds on an allocated File, the flag is set and the
  cached tag is the classification made at the start of the call (Missing after a
  directory was created, the old type after an entry was removed); a classification that
  follows returns at once, with the state as it is, so without asking the file system.
\<close>

theorem cork_file_cache_survives:
  assumes "file < file_brk s"
  shows "(cork_file_mkdir os file mode flags s = (0, s') \<longrightarrow>
            has_stat (file_mem s' file) \<and>
            type (file_mem s' file) = type (file_mem (snd (cork_file_stat os file s)) file) \<and>
            cork_file_stat os file s' = (0, s')) \<and>
         (cork_file_remove depth os file flags s = Some (0, s') \<longrightarrow>
            has_stat (file_mem s' file) \<and>
            type (file_mem s' file) = type (file_mem (snd (cork_file_stat os file s)) file) \<and>
            cork_file_stat os file s' = (0, s'))"
proof -
  have a: "has_stat (file_mem s' file) \<and>
      type (file_mem s' file) = type (file_mem (snd (cork_file_stat os file s)) file) \<and>
      cork_file_stat os file s' = (0, s')"
    if ok: "fst (cork_file_stat os file s) = 0"
      and cell: "file_mem s' file = file_mem (snd (cork_file_stat os file s)) file"
  proof -
    from ok have "cork_file_stat os file s = (0, snd (cork_file_stat os file s))"
      by (metis prod.collapse)
    then have "has_stat (file_mem (snd (cork_file_stat os file s)) file)"
      by (rule stat_ok_has_stat)
    with cell show ?thesis by (simp add: stat_cached)
  qed
  have m: "cork_file_mkdir os file mode flags s = (0, s') \<Longrightarrow>
      fst (cork_file_stat os file s) = 0 \<and>
      file_mem s' file = file_mem (snd (cork_file_stat os file s)) file"
    unfolding cork_file_mkdir_def
    using mkdir_one_frame [OF _ assms, of os mode flags 0 s'] mkdir_ok_stat_ok [of os "file" mode flags s s']
    by simp
  have r: "cork_file_remove depth os file flags s = Some (0, s') \<Longrightarrow>
      fst (cork_file_stat os file s) = 0 \<and>
      file_mem s' file = file_mem (snd (cork_file_stat os file s)) file"
    using remove_frame [OF _ assms, of depth os flags 0 s']
      remove_ok_stat_ok [of depth os "file" flags s s']
    by simp
  from a m r show ?thesis by blast
qed

lemma demo_mkdir_d:
  "fst (cork_file_mkdir demo_posix 0 493 0 (demo_state [] ''d'')) = 0"
  "world (snd (cork_file_mkdir demo_posix 0 493 0 (demo_state [] ''d''))) = [(''d'', 16877)]"
  "file_mem (snd (cork_file_mkdir demo_posix 0 493 0 (demo_state [] ''d''))) 0 =
     \<lparr>file_path = 0, st_mode = 0, type = CORK_FILE_MISSING, has_stat = True\<rparr>"
  by (simp_all add: model_defs demo_defs mkdir_defs)

text \<open>
  C3, as stated, fails: on an empty file system \<^verbatim>\<open>cork_file_mkdir\<close> of \<^verbatim>\<open>d\<close> succeeds
  and creates the directory, and the File is left with its validity flag set and the tag
  Missing.
\<close>

theorem cork_file_mkdir_keeps_stale_tag:
  "fst (cork_file_mkdir demo_posix 0 493 0 (demo_state [] ''d'')) = 0 \<and>
   world (snd (cork_file_mkdir demo_posix 0 493 0 (demo_state [] ''d''))) = [(''d'', 16877)] \<and>
   has_stat (file_mem (snd (cork_file_mkdir demo_posix 0 493 0 (demo_state [] ''d''))) 0) \<and>
   type (file_mem (snd (cork_file_mkdir demo_posix 0 493 0 (demo_state [] ''d''))) 0) =
     CORK_FILE_MISSING"
  by (simp add: demo_mkdir_d)

lemma demo_remove_f:
  "map_option fst (cork_file_remove 1 demo_posix 0 0 (demo_state [(''f'', 33188)] ''f'')) = Some 0"
  "file_mem (snd (the (cork_file_remove 1 demo_posix 0 0 (demo_state [(''f'', 33188)] ''f'')))) 0 =
     \<lparr>file_path = 0, st_mode = 33188, type = CORK_FILE_REGULAR, has_stat = True\<rparr>"
  "world (snd (the (cork_file_remove 1 demo_posix 0 0 (demo_state [(''f'', 33188)] ''f'')))) = []"
  by (simp_all add: model_defs demo_defs)

theorem cork_file_cache_survives_witness:
  "(0 :: addr) < file_brk (demo_state [] ''d'') \<and>
   fst (cork_file_mkdir demo_posix 0 493 0 (demo_state [] ''d'')) = 0 \<and>
   has_stat (file_mem (snd (cork_file_mkdir demo_posix 0 493 0 (demo_state [] ''d''))) 0) \<and>
   type (file_mem (snd (cork_file_mkdir demo_posix 0 493 0 (demo_state [] ''d''))) 0) =
     CORK_FILE_MISSING \<and>
   map_option fst (cork_file_remove 1 demo_posix 0 0 (demo_state [(''f'', 33188)] ''f'')) =
     Some 0 \<and>
   has_stat (file_mem (snd (the
     (cork_file_remove 1 demo_posix 0 0 (demo_state [(''f'', 33188)] ''f'')))) 0) \<and>
   type (file_mem (snd (the
     (cork_file_remove 1 demo_posix 0 0 (demo_state [(''f'', 33188)] ''f'')))) 0) =
     CORK_FILE_REGULAR"
proof -
  let ?s = "demo_state [] ''d''" and ?t = "demo_state [(''f'', 33188)] ''f''"
  let ?s' = "snd (cork_file_mkdir demo_posix 0 493 0 ?s)"
  let ?t' = "snd (the (cork_file_remove 1 demo_posix 0 0 ?t))"
  have v: "(0 :: addr) < file_brk ?s" "(0 :: addr) < file_brk ?t" by simp_all
  have m: "cork_file_mkdir demo_posix 0 493 0 ?s = (0, ?s')"
    using demo_mkdir_d(1) by (metis prod.collapse)
  have r: "cork_file_remove 1 demo_posix 0 0 ?t = Some (0, ?t')"
    using demo_remove_f(1) by (cases "cork_file_remove 1 demo_posix 0 0 ?t") auto
  have c1: "type (file_mem (snd (cork_file_stat demo_posix 0 ?s)) 0) = CORK_FILE_MISSING"
    by (simp add: model_defs demo_defs ENOENT_def ENOTDIR_def)
  have c2: "type (file_mem (snd (cork_file_stat demo_posix 0 ?t)) 0) = CORK_FILE_REGULAR"
    by (simp add: model_defs demo_defs)
  have 1: "has_stat (file_mem ?s' 0) \<and>
      type (file_mem ?s' 0) = type (file_mem (snd (cork_file_stat demo_posix 0 ?s)) 0)"
    using cork_file_cache_survives [OF v(1), of demo_posix 493 0 ?s' 1] m by blast
  have 2: "has_stat (file_mem ?t' 0) \<and>
      type (file_mem ?t' 0) = type (file_mem (snd (cork_file_stat demo_posix 0 ?t)) 0)"
    using cork_file_cache_survives [OF v(2), of demo_posix 493 0 ?t' 1] r by blast
  from 1 2 show ?thesis
    unfolding c1 c2 using v(1) demo_mkdir_d(1) demo_remove_f(1) by blast
qed

lemma recursive_or_permissive:
  "flags AND CORK_FILE_RECURSIVE \<noteq> 0 \<Longrightarrow>
   (flags OR CORK_FILE_PERMISSIVE) AND CORK_FILE_RECURSIVE \<noteq> (0 :: flags_t)"
  by (simp add: bit.conj_disj_distrib2 or_eq_0_iff)

text \<open>
  C5.  Let the File be allocated and classified Missing, and let the Recursive flag be
  set.  The parent path is what \<^verbatim>\<open>cork_path_dirname\<close> (a clone, then SetDirname) makes of
  the File's path.  If it is empty, the call is the creation of the leaf alone.  If it is
  not, the call first runs itself on a new File for the parent with the Permissive flag
  added to the caller's flags; a failure of that call is the failure of the whole call,
  and otherwise the leaf is created.  The leaf is created with the File's own path text
  and the given mode.  Whether the caller passed Permissive makes no difference to the
  call.  A failure of the creation of the leaf is returned as -1 with a SystemError
  wrapping \<^verbatim>\<open>errno\<close>.
\<close>

theorem cork_file_mkdir_recursive:
  assumes valid: "file < file_brk s" "file_path (file_mem s file) < path_brk s"
    and st: "cork_file_stat os file s = (0, s1)"
    and missing: "type (file_mem s1 file) = CORK_FILE_MISSING"
    and isrec: "flags AND CORK_FILE_RECURSIVE \<noteq> 0"
    and dn: "cork_path_dirname (file_path (file_mem s1 file)) s1 = (parent, s2)"
    and al: "file_alloc s2 = (parent_file, s3)"
  shows "(cork_path_size parent s2 = 0 \<longrightarrow>
            cork_file_mkdir os file mode flags s =
              mkdir_leaf os (path_mem s (file_path (file_mem s file))) mode
                (cork_path_free parent s2)) \<and>
         (cork_path_size parent s2 \<noteq> 0 \<longrightarrow>
            cork_file_mkdir os file mode flags s =
              (case cork_file_mkdir os parent_file mode (flags OR CORK_FILE_PERMISSIVE)
                      (cork_file_init parent_file parent s3) of
                 (rc, s4) \<Rightarrow>
                   if rc \<noteq> 0 then (- 1, cork_file_done parent_file s4)
                   else mkdir_leaf os (path_mem s (file_path (file_mem s file))) mode
                          (cork_file_done parent_file s4))) \<and>
         cork_file_mkdir os file mode (flags OR CORK_FILE_PERMISSIVE) s =
           cork_file_mkdir os file mode flags s \<and>
         (fst (sys_call (posix_mkdir os p mode) t) = - 1 \<longrightarrow>
            fst (mkdir_leaf os p mode t) = - 1 \<and>
            cork_error (snd (mkdir_leaf os p mode t)) =
              Some (SystemError (errno (snd (sys_call (posix_mkdir os p mode) t)))))"
proof -
  let ?p0 = "file_path (file_mem s file)"
  have t1: "touch (path_brk s) file s s1" by (rule touch_stat [OF st])
  then have b1: "path_brk s1 = path_brk s" "file_brk s1 = file_brk s"
    by (simp_all add: touch_def)
  have pm1: "path_mem s1 = path_mem s"
    using cork_file_stat_paths(1) [of os "file" s] st by simp
  have fp1: "file_path (file_mem s1 file) = ?p0"
    using cork_file_stat_paths(4) [of os "file" s "file"] st by simp
  have p: "parent = path_brk s"
    using dn cork_path_dirname_eqs(1) [of "file_path (file_mem s1 file)" s1] by (simp add: b1)
  have s2: "path_brk s2 = Suc (path_brk s)" "file_brk s2 = file_brk s"
    "file_mem s2 = file_mem s1" "path_mem s2 ?p0 = path_mem s ?p0"
    using dn cork_path_dirname_eqs(2-5) [of "file_path (file_mem s1 file)" s1] valid(2)
    by (simp_all add: b1 pm1)
  have pf: "parent_file = file_brk s" "s3 = s2\<lparr>file_brk := Suc (file_brk s2)\<rparr>"
    using al by (auto simp: file_alloc_def s2)
  note eq = cork_file_mkdir_one.simps [of os "file" mode flags s]
  have a: "cork_file_mkdir os file mode flags s =
      mkdir_leaf os (path_mem s ?p0) mode (cork_path_free parent s2)"
    if "cork_path_size parent s2 = 0"
    using that st missing isrec dn s2 fp1
    by (simp add: cork_file_mkdir_def eq mkdir_leaf_def cork_path_free_def cork_path_get_def)
  have b: "cork_file_mkdir os file mode flags s =
      (case cork_file_mkdir os parent_file mode (flags OR CORK_FILE_PERMISSIVE)
              (cork_file_init parent_file parent s3) of
         (rc, s4) \<Rightarrow>
           if rc \<noteq> 0 then (- 1, cork_file_done parent_file s4)
           else mkdir_leaf os (path_mem s ?p0) mode (cork_file_done parent_file s4))"
    if nz: "cork_path_size parent s2 \<noteq> 0"
  proof -
    let ?s3i = "cork_file_init parent_file parent s3"
    obtain rc s4 where rec:
      "cork_file_mkdir_one os parent_file mode (flags OR CORK_FILE_PERMISSIVE) ?s3i = (rc, s4)"
      by (metis prod.exhaust)
    have s3i: "file_brk ?s3i = Suc (file_brk s)" "path_brk ?s3i = Suc (path_brk s)"
      "file_mem ?s3i file = file_mem s1 file" "path_mem ?s3i ?p0 = path_mem s ?p0"
      using valid(1) by (simp_all add: pf cork_file_init_def s2)
    have "parent_file < file_brk ?s3i" using s3i(1) by (simp add: pf(1))
    from mkdir_one_frame [OF rec this] have fr: "frame parent_file ?s3i s4" by simp
    have keep: "file_mem s4 file = file_mem s1 file" "path_mem s4 ?p0 = path_mem s ?p0"
      using fr valid s3i by (auto simp: frame_def pf(1))
    show ?thesis
      using nz st missing isrec dn al rec keep fp1
      by (simp add: cork_file_mkdir_def eq mkdir_leaf_def cork_file_done_def cork_path_free_def
          cork_path_get_def)
  qed
  have idem: "(flags OR CORK_FILE_PERMISSIVE) OR CORK_FILE_PERMISSIVE =
      flags OR CORK_FILE_PERMISSIVE"
    by (simp add: or.assoc)
  have c: "cork_file_mkdir os file mode (flags OR CORK_FILE_PERMISSIVE) s =
      cork_file_mkdir os file mode flags s"
    using st missing isrec recursive_or_permissive [OF isrec]
    by (simp add: cork_file_mkdir_def eq
        cork_file_mkdir_one.simps [of os "file" mode "flags OR CORK_FILE_PERMISSIVE" s])
      (unfold idem, rule refl)
  have d: "fst (mkdir_leaf os p mode t) = - 1 \<and>
      cork_error (snd (mkdir_leaf os p mode t)) =
        Some (SystemError (errno (snd (sys_call (posix_mkdir os p mode) t))))"
    if "fst (sys_call (posix_mkdir os p mode) t) = - 1"
    using that
    by (cases "sys_call (posix_mkdir os p mode) t")
      (simp add: mkdir_leaf_def check_posix_def cork_system_error_set_def)
  from a b c d show ?thesis by blast
qed

lemma demo_ab_eval:
  "fst (cork_file_stat demo_posix 0 demo_ab) = 0"
  "type (file_mem (snd (cork_file_stat demo_posix 0 demo_ab)) 0) = CORK_FILE_MISSING"
  "file_path (file_mem (snd (cork_file_stat demo_posix 0 demo_ab)) 0) = 0"
  "path_mem (snd (cork_path_dirname 0 (snd (cork_file_stat demo_posix 0 demo_ab))))
     (fst (cork_path_dirname 0 (snd (cork_file_stat demo_posix 0 demo_ab)))) = ''a''"
  "fst (cork_file_mkdir demo_posix 0 493 CORK_FILE_RECURSIVE demo_ab) = 0"
  "world (snd (cork_file_mkdir demo_posix 0 493 CORK_FILE_RECURSIVE demo_ab)) =
     [(''a/b'', 16877), (''a'', 16877)]"
  by (simp_all add: demo_ab_def model_defs demo_defs mkdir_defs)

theorem cork_file_mkdir_recursive_witness:
  "(0 :: addr) < file_brk demo_ab \<and> file_path (file_mem demo_ab 0) < path_brk demo_ab \<and>
   fst (cork_file_stat demo_posix 0 demo_ab) = 0 \<and>
   type (file_mem (snd (cork_file_stat demo_posix 0 demo_ab)) 0) = CORK_FILE_MISSING \<and>
   CORK_FILE_RECURSIVE AND CORK_FILE_RECURSIVE \<noteq> 0 \<and>
   path_mem (snd (cork_path_dirname 0 (snd (cork_file_stat demo_posix 0 demo_ab))))
     (fst (cork_path_dirname 0 (snd (cork_file_stat demo_posix 0 demo_ab)))) = ''a'' \<and>
   cork_file_mkdir demo_posix 0 493 (CORK_FILE_RECURSIVE OR CORK_FILE_PERMISSIVE) demo_ab =
     cork_file_mkdir demo_posix 0 493 CORK_FILE_RECURSIVE demo_ab \<and>
   fst (cork_file_mkdir demo_posix 0 493 CORK_FILE_RECURSIVE demo_ab) = 0 \<and>
   world (snd (cork_file_mkdir demo_posix 0 493 CORK_FILE_RECURSIVE demo_ab)) =
     [(''a/b'', 16877), (''a'', 16877)]"
proof -
  let ?s1 = "snd (cork_file_stat demo_posix 0 demo_ab)"
  let ?d = "cork_path_dirname (file_path (file_mem ?s1 0)) ?s1"
  have v: "(0 :: addr) < file_brk demo_ab" "file_path (file_mem demo_ab 0) < path_brk demo_ab"
    by (simp_all add: demo_ab_def)
  have st: "cork_file_stat demo_posix 0 demo_ab = (0, ?s1)"
    using demo_ab_eval(1) by (metis prod.collapse)
  have isrec: "CORK_FILE_RECURSIVE AND CORK_FILE_RECURSIVE \<noteq> 0"
    by (simp add: CORK_FILE_RECURSIVE_def)
  have dn: "?d = (fst ?d, snd ?d)" by simp
  have al: "file_alloc (snd ?d) = (fst (file_alloc (snd ?d)), snd (file_alloc (snd ?d)))"
    by simp
  from cork_file_mkdir_recursive [OF v st demo_ab_eval(2) isrec dn al, of 493]
  have "cork_file_mkdir demo_posix 0 493 (CORK_FILE_RECURSIVE OR CORK_FILE_PERMISSIVE) demo_ab =
      cork_file_mkdir demo_posix 0 493 CORK_FILE_RECURSIVE demo_ab"
    by blast
  with v isrec demo_ab_eval show ?thesis by simp
qed

text \<open>
  The last branch of \<^verbatim>\<open>cork_file_remove\<close>, for any operating system: the entry is
  unlinked, the return code follows the outcome, and the error slot is left as the
  classification left it, also when \<^verbatim>\<open>unlink\<close> fails.
\<close>

lemma cork_file_remove_unlink:
  assumes "cork_file_stat os f s = (0, s1)"
    and "type (file_mem s1 f) \<noteq> CORK_FILE_MISSING"
    and "type (file_mem s1 f) \<noteq> CORK_FILE_DIRECTORY"
    and "sys_call (posix_unlink os (path_mem s1 (file_path (file_mem s1 f)))) s1 = (rc, s2)"
  shows "cork_file_remove (Suc depth) os f flags s = Some (if rc \<noteq> 0 then - 1 else 0, s2)"
    and "cork_error s2 = cork_error s1"
  using assms sys_callD [OF assms(4)] by (simp_all add: cork_path_get_def)

text \<open>
  C2, at a failing input.  The File is a regular file whose \<^verbatim>\<open>unlink\<close> is refused:
  \<^verbatim>\<open>cork_file_remove\<close> returns -1 and records no error.  The directory branch, on a
  refused \<^verbatim>\<open>rmdir\<close>, returns -1 with a SystemError wrapping the code.
\<close>

theorem cork_file_remove_unlink_unreported:
  "outcome (cork_file_remove 1 demo_unlink_denied 0 0 (demo_state [(''f'', 33188)] ''f'')) =
     Some (- 1, None, [(''f'', 33188)]) \<and>
   outcome (cork_file_remove 1 demo_rmdir_denied 0 0 (demo_state [(''d'', 16877)] ''d'')) =
     Some (- 1, Some (SystemError EACCES), [(''d'', 16877)])"
  by (simp add: outcome_def model_defs demo_defs demo_unlink_denied_def demo_rmdir_denied_def
      demo_fail_def)

end
